theory Spec2Isabelle
  imports Complex_Main "HOL-Library.AList" "HOL-Library.Log_Nat"
begin

section \<open>Client state manager (utils/clientStateManager.js)\<close>

text \<open>
  Client ids and state names are JavaScript strings. \<open>CLIENT_STATES\<close> is an object of
  ten string constants; \<open>setState\<close> accepts any string. A \<open>Date\<close> is its epoch
  value in milliseconds. The metadata object is opaque to the manager: a type parameter.
\<close>

definition INITIALIZING :: string where "INITIALIZING = ''INITIALIZING''"
definition WAITING_QR :: string where "WAITING_QR = ''WAITING_QR''"
definition AUTHENTICATING :: string where "AUTHENTICATING = ''AUTHENTICATING''"
definition AUTHENTICATED :: string where "AUTHENTICATED = ''AUTHENTICATED''"
definition READY :: string where "READY = ''READY''"
definition DISCONNECTED :: string where "DISCONNECTED = ''DISCONNECTED''"
definition AUTH_FAILURE :: string where "AUTH_FAILURE = ''AUTH_FAILURE''"
definition ERROR :: string where "ERROR = ''ERROR''"
definition RECONNECTING :: string where "RECONNECTING = ''RECONNECTING''"
definition ZOMBIE :: string where "ZOMBIE = ''ZOMBIE''"

definition CLIENT_STATES :: "string list" where
  "CLIENT_STATES = [INITIALIZING, WAITING_QR, AUTHENTICATING, AUTHENTICATED, READY,
     DISCONNECTED, AUTH_FAILURE, ERROR, RECONNECTING, ZOMBIE]"

text \<open>The value stored in \<open>this.states\<close>; \<open>previousState\<close> is undefined on the first transition.\<close>

record 'm state_entry =
  state :: string
  timestamp :: int
  metadata :: 'm
  previousState :: "string option"

text \<open>The \<open>stateChange\<close> object; its fields \<open>from\<close> and \<open>to\<close> are \<open>change_from\<close> and \<open>change_to\<close>.\<close>

record 'm state_change =
  number :: string
  change_from :: string
  change_to :: string
  change_timestamp :: int
  change_metadata :: 'm

record 'm state_manager =
  states :: "string \<rightharpoonup> 'm state_entry"
  stateHistory :: "string \<rightharpoonup> 'm state_change list"

definition new_state_manager :: "'m state_manager" where
  "new_state_manager = \<lparr>states = Map.empty, stateHistory = Map.empty\<rparr>"

text \<open>\<open>previousState?.state || 'UNKNOWN'\<close>: the empty string is falsy as well.\<close>

definition from_of :: "'m state_entry option \<Rightarrow> string" where
  "from_of prev =
     (case prev of None \<Rightarrow> ''UNKNOWN''
      | Some e \<Rightarrow> if state e = [] then ''UNKNOWN'' else state e)"

text \<open>\<open>history.push(stateChange); if (history.length > 50) history.shift()\<close>\<close>

definition push_capped :: "'a list \<Rightarrow> 'a \<Rightarrow> 'a list" where
  "push_capped history c =
     (let h = history @ [c] in if length h > 50 then tl h else h)"

text \<open>
  \<open>setState(number, state, metadata)\<close> at clock value \<open>now\<close> (both \<open>new Date()\<close>
  reads happen in the same synchronous call). Returns the \<open>stateChange\<close> and the
  updated manager.
\<close>

definition setState ::
  "'m state_manager \<Rightarrow> string \<Rightarrow> string \<Rightarrow> 'm \<Rightarrow> int \<Rightarrow> 'm state_change \<times> 'm state_manager" where
  "setState sm num st md now =
     (let prev = states sm num;
          stateChange = \<lparr>number = num, change_from = from_of prev, change_to = st,
                          change_timestamp = now, change_metadata = md\<rparr>;
          entry = \<lparr>state = st, timestamp = now, metadata = md,
                    previousState = map_option state prev\<rparr>;
          history = (case stateHistory sm num of None \<Rightarrow> [] | Some h \<Rightarrow> h)
      in (stateChange,
          sm\<lparr>states := (states sm)(num \<mapsto> entry),
             stateHistory := (stateHistory sm)(num \<mapsto> push_capped history stateChange)\<rparr>))"

definition getState :: "'m state_manager \<Rightarrow> string \<Rightarrow> 'm state_entry option" where
  "getState sm num = states sm num"

definition getHistory :: "'m state_manager \<Rightarrow> string \<Rightarrow> 'm state_change list" where
  "getHistory sm num = (case stateHistory sm num of None \<Rightarrow> [] | Some h \<Rightarrow> h)"

definition isHealthy :: "'m state_manager \<Rightarrow> string \<Rightarrow> bool" where
  "isHealthy sm num =
     (case getState sm num of None \<Rightarrow> False
      | Some e \<Rightarrow> state e \<in> set [AUTHENTICATED, READY])"

definition isRecoverable :: "'m state_manager \<Rightarrow> string \<Rightarrow> bool" where
  "isRecoverable sm num =
     (case getState sm num of None \<Rightarrow> True
      | Some e \<Rightarrow> state e \<notin> set [ZOMBIE, ERROR])"

text \<open>\<open>getStateAge\<close> at clock value \<open>now\<close>; \<open>None\<close> is the \<open>null\<close> result.\<close>

definition getStateAge :: "'m state_manager \<Rightarrow> int \<Rightarrow> string \<Rightarrow> int option" where
  "getStateAge sm now num =
     (case getState sm num of None \<Rightarrow> None | Some e \<Rightarrow> Some (now - timestamp e))"

definition clearState :: "'m state_manager \<Rightarrow> string \<Rightarrow> 'm state_manager" where
  "clearState sm num =
     sm\<lparr>states := (states sm)(num := None), stateHistory := (stateHistory sm)(num := None)\<rparr>"

text \<open>
  A sequence of \<open>setState\<close> calls, each \<open>(number, state, metadata, clock)\<close>, run in order:
  the list of returned \<open>stateChange\<close> objects and the final manager.
\<close>

fun setState_calls ::
  "'m state_manager \<Rightarrow> (string \<times> string \<times> 'm \<times> int) list \<Rightarrow> 'm state_change list \<times> 'm state_manager" where
  "setState_calls sm [] = ([], sm)"
| "setState_calls sm ((num, st, md, now) # cs) =
     (let (c, sm') = setState sm num st md now;
          (log, sm'') = setState_calls sm' cs
      in (c # log, sm''))"


section \<open>JavaScript numbers\<close>

text \<open>
  A JavaScript number is an IEEE 754 binary64 value: a finite double, one of the two
  infinities, or \<open>NaN\<close>. A finite double is represented by the rational it denotes
  (negative zero is not told apart from zero: nothing modelled here divides by it or
  inspects its sign).
\<close>

datatype js_number = Num rat | PosInfinity | NegInfinity | NaN

text \<open>For \<open>x > 0\<close>, the exponent \<open>e\<close> with \<open>2 ^ e \<le> x < 2 ^ (e + 1)\<close>.\<close>

definition binade :: "rat \<Rightarrow> int" where
  "binade x = (if 1 \<le> x then bitlen \<lfloor>x\<rfloor> - 1 else - bitlen (\<lceil>1 / x\<rceil> - 1))"

text \<open>Rounding to the nearest integer, a tie going to the even one.\<close>

definition round_half_even :: "rat \<Rightarrow> int" where
  "round_half_even q =
     (let n = \<lfloor>q\<rfloor>; d = q - of_int n
      in if d < 1 / 2 then n else if 1 / 2 < d then n + 1 else if even n then n else n + 1)"

definition overflow_threshold :: rat where
  "overflow_threshold = 2 ^ 1024"

text \<open>
  The result of an arithmetic operation whose exact value is \<open>x\<close>: \<open>x\<close> rounded to the
  nearest double, ties to even. Doubles with exponent \<open>e\<close> are spaced \<open>2 ^ (e - 52)\<close>
  apart, those below \<open>2 ^ - 1022\<close> (the subnormal ones) \<open>2 ^ - 1074\<close>; a result that
  rounds to \<open>2 ^ 1024\<close> or beyond in magnitude is an infinity.
\<close>

definition round_double :: "rat \<Rightarrow> js_number" where
  "round_double x =
     (if x = 0 then Num 0
      else
        let u = 2 powi (max (binade \<bar>x\<bar>) (- 1022) - 52);
            y = of_int (round_half_even (x / u)) * u
        in if overflow_threshold \<le> \<bar>y\<bar> then (if 0 < x then PosInfinity else NegInfinity)
           else Num y)"

text \<open>A rational is (the value of) a double when rounding leaves it as it is.\<close>

definition is_double :: "rat \<Rightarrow> bool" where
  "is_double a = (round_double a = Num a)"

fun js_neg :: "js_number \<Rightarrow> js_number" where
  "js_neg (Num x) = Num (- x)"
| "js_neg PosInfinity = NegInfinity"
| "js_neg NegInfinity = PosInfinity"
| "js_neg NaN = NaN"

text \<open>An infinity times the finite \<open>x\<close>, by the sign of \<open>x\<close>; times zero it is \<open>NaN\<close>.\<close>

definition infinity_times :: "rat \<Rightarrow> js_number" where
  "infinity_times x = (if x = 0 then NaN else if 0 < x then PosInfinity else NegInfinity)"

text \<open>The operators \<open>*\<close>, \<open>+\<close> and \<open>-\<close>, and \<open>Math.min\<close>, \<open>Math.floor\<close>.\<close>

fun js_mul :: "js_number \<Rightarrow> js_number \<Rightarrow> js_number" where
  "js_mul (Num x) (Num y) = round_double (x * y)"
| "js_mul (Num x) PosInfinity = infinity_times x"
| "js_mul (Num x) NegInfinity = infinity_times (- x)"
| "js_mul PosInfinity (Num y) = infinity_times y"
| "js_mul NegInfinity (Num y) = infinity_times (- y)"
| "js_mul PosInfinity PosInfinity = PosInfinity"
| "js_mul PosInfinity NegInfinity = NegInfinity"
| "js_mul NegInfinity PosInfinity = NegInfinity"
| "js_mul NegInfinity NegInfinity = PosInfinity"
| "js_mul NaN b = NaN"
| "js_mul a NaN = NaN"

fun js_add :: "js_number \<Rightarrow> js_number \<Rightarrow> js_number" where
  "js_add (Num x) (Num y) = round_double (x + y)"
| "js_add (Num x) PosInfinity = PosInfinity"
| "js_add (Num x) NegInfinity = NegInfinity"
| "js_add PosInfinity (Num y) = PosInfinity"
| "js_add NegInfinity (Num y) = NegInfinity"
| "js_add PosInfinity PosInfinity = PosInfinity"
| "js_add NegInfinity NegInfinity = NegInfinity"
| "js_add PosInfinity NegInfinity = NaN"
| "js_add NegInfinity PosInfinity = NaN"
| "js_add NaN b = NaN"
| "js_add a NaN = NaN"

definition js_sub :: "js_number \<Rightarrow> js_number \<Rightarrow> js_number" where
  "js_sub a b = js_add a (js_neg b)"

fun js_min :: "js_number \<Rightarrow> js_number \<Rightarrow> js_number" where
  "js_min NaN b = NaN"
| "js_min a NaN = NaN"
| "js_min NegInfinity b = NegInfinity"
| "js_min a NegInfinity = NegInfinity"
| "js_min PosInfinity b = b"
| "js_min a PosInfinity = a"
| "js_min (Num x) (Num y) = Num (min x y)"

fun js_floor :: "js_number \<Rightarrow> js_number" where
  "js_floor (Num x) = Num (of_int \<lfloor>x\<rfloor>)"
| "js_floor a = a"

text \<open>
  \<open>Math.pow(b, n)\<close> for a count \<open>n\<close>: the power, rounded. For the base 2, the only
  one the manager is built with, this is the exact power below \<open>2 ^ 1024\<close> and
  \<open>Infinity\<close> from there on.
\<close>

definition js_pow :: "rat \<Rightarrow> nat \<Rightarrow> js_number" where
  "js_pow b n = round_double (b ^ n)"

text \<open>An integer as a number.\<close>

definition js_of_int :: "int \<Rightarrow> js_number" where
  "js_of_int i = round_double (of_int i)"

section \<open>Configuration (conf/config.js)\<close>

text \<open>
  \<open>parseInt(process.env.X) || d\<close>: the parsed environment variable is \<open>None\<close> when
  \<open>parseInt\<close> gives \<open>NaN\<close> (variable unset or not a number); \<open>NaN\<close> and \<open>0\<close> are
  falsy, so both give the default.
\<close>

definition or_default :: "int option \<Rightarrow> int \<Rightarrow> int" where
  "or_default x d = (case x of None \<Rightarrow> d | Some v \<Rightarrow> if v = 0 then d else v)"

record env =
  RECONNECT_DELAY :: "int option"
  MAX_RETRIES :: "int option"

record app_config =
  reconnectDelay :: int
  maxRetries :: int

definition config :: "env \<Rightarrow> app_config" where
  "config e = \<lparr>reconnectDelay = or_default (RECONNECT_DELAY e) 5000,
               maxRetries = or_default (MAX_RETRIES e) 3\<rparr>"

text \<open>The environment with neither variable set.\<close>

definition empty_env :: env where
  "empty_env = \<lparr>RECONNECT_DELAY = None, MAX_RETRIES = None\<rparr>"

section \<open>Reconnection manager (utils/reconnectionManager.js)\<close>

record backoff_config =
  baseDelay :: int
  maxDelay :: int
  maxAttempts :: int
  backoffMultiplier :: int
  jitterFactor :: js_number

text \<open>
  The \<open>this.config\<close> object of the constructor; \<open>jitterFactor\<close> is the double the
  literal \<open>0.1\<close> denotes.
\<close>

definition backoff_config_of :: "app_config \<Rightarrow> backoff_config" where
  "backoff_config_of c =
     \<lparr>baseDelay = or_default (Some (reconnectDelay c)) 5000,
      maxDelay = 300000,
      maxAttempts = or_default (Some (maxRetries c)) 10,
      backoffMultiplier = 2,
      jitterFactor = round_double (1 / 10)\<rparr>"

text \<open>The configuration the module gets when neither environment variable is set.\<close>

definition default_backoff :: backoff_config where
  "default_backoff = backoff_config_of (config empty_env)"

text \<open>
  A pending \<open>setTimeout\<close> handle: when it was armed and with which delay. The callback it
  carries is the body modelled by \<open>timer_fired\<close> below.
\<close>

record timer =
  armed_at :: int
  timer_delay :: js_number

record reconnection_manager =
  reconnectAttempts :: "string \<rightharpoonup> nat"
  reconnectTimers :: "string \<rightharpoonup> timer"
  lastReconnectTime :: "string \<rightharpoonup> int"
  rconfig :: backoff_config

definition new_reconnection_manager :: "app_config \<Rightarrow> reconnection_manager" where
  "new_reconnection_manager c =
     \<lparr>reconnectAttempts = Map.empty, reconnectTimers = Map.empty,
      lastReconnectTime = Map.empty, rconfig = backoff_config_of c\<rparr>"

definition getAttempts :: "reconnection_manager \<Rightarrow> string \<Rightarrow> nat" where
  "getAttempts rm num = (case reconnectAttempts rm num of None \<Rightarrow> 0 | Some a \<Rightarrow> a)"

definition incrementAttempts :: "reconnection_manager \<Rightarrow> string \<Rightarrow> nat \<times> reconnection_manager" where
  "incrementAttempts rm num =
     (let current = getAttempts rm num
      in (current + 1, rm\<lparr>reconnectAttempts := (reconnectAttempts rm)(num \<mapsto> current + 1)\<rparr>))"

definition clearTimer :: "reconnection_manager \<Rightarrow> string \<Rightarrow> reconnection_manager" where
  "clearTimer rm num =
     (case reconnectTimers rm num of None \<Rightarrow> rm
      | Some t \<Rightarrow> rm\<lparr>reconnectTimers := (reconnectTimers rm)(num := None)\<rparr>)"

definition resetAttempts :: "reconnection_manager \<Rightarrow> string \<Rightarrow> reconnection_manager" where
  "resetAttempts rm num =
     (let rm1 = rm\<lparr>reconnectAttempts := (reconnectAttempts rm)(num := None)\<rparr>;
          rm2 = clearTimer rm1 num
      in rm2\<lparr>lastReconnectTime := (lastReconnectTime rm2)(num := None)\<rparr>)"

text \<open>
  \<open>calculateDelay(attempt)\<close> with the value \<open>r\<close> that \<open>Math.random()\<close> returns
  (a double, \<open>0 \<le> r < 1\<close>), computed in double arithmetic operation by operation, in
  the source's order. \<open>capped_delay\<close> is the value of \<open>delay\<close> after \<open>Math.min\<close>.
\<close>

definition capped_delay :: "backoff_config \<Rightarrow> nat \<Rightarrow> js_number" where
  "capped_delay c attempt =
     js_min (js_mul (js_of_int (baseDelay c)) (js_pow (of_int (backoffMultiplier c)) attempt))
       (js_of_int (maxDelay c))"

definition calculateDelay :: "backoff_config \<Rightarrow> nat \<Rightarrow> rat \<Rightarrow> js_number" where
  "calculateDelay c attempt r =
     (let delay = capped_delay c attempt;
          jitter = js_mul (js_mul delay (jitterFactor c))
                     (js_sub (js_mul (Num r) (Num 2)) (Num 1))
      in js_floor (js_add delay jitter))"

text \<open>
  The delay the specification gives for an attempt before jitter, in milliseconds, with
  the default values: \<open>min(baseDelay * backoffMultiplier^attempt, maxDelay)\<close>.
\<close>

definition spec_delay :: "nat \<Rightarrow> int" where
  "spec_delay attempt = min (5000 * 2 ^ attempt) 300000"

text \<open>
  \<open>canReconnect(number)\<close> at clock value \<open>now\<close>. \<open>lastAttempt && ...\<close>: an absent
  entry and the timestamp \<open>0\<close> are falsy.
\<close>

definition canReconnect :: "reconnection_manager \<Rightarrow> int \<Rightarrow> string \<Rightarrow> bool" where
  "canReconnect rm now num =
     (let attempts = getAttempts rm num
      in if int attempts \<ge> maxAttempts (rconfig rm) then False
         else (case lastReconnectTime rm num of
                 None \<Rightarrow> True
               | Some lastAttempt \<Rightarrow>
                   if lastAttempt \<noteq> 0 \<and> now - lastAttempt < 2000 then False else True))"

text \<open>
  \<open>scheduleReconnection(number, callback)\<close> at clock value \<open>now\<close> with random draw
  \<open>r\<close>: \<open>None\<close> is the \<open>null\<close> result, \<open>Some (attempt, delay)\<close> the object
  \<open>{attempt, delay}\<close>.
\<close>

definition scheduleReconnection ::
  "reconnection_manager \<Rightarrow> int \<Rightarrow> rat \<Rightarrow> string
     \<Rightarrow> (nat \<times> js_number) option \<times> reconnection_manager" where
  "scheduleReconnection rm now r num =
     (if \<not> canReconnect rm now num then (None, rm)
      else
        let (attempt, rm1) = incrementAttempts rm num;
            delay = calculateDelay (rconfig rm1) attempt r;
            rm2 = clearTimer rm1 num;
            t = \<lparr>armed_at = now, timer_delay = delay\<rparr>
        in (Some (attempt, delay), rm2\<lparr>reconnectTimers := (reconnectTimers rm2)(num \<mapsto> t)\<rparr>))"

text \<open>
  How the awaited \<open>callback()\<close> settles: it resolves; it throws or rejects with a value
  that has a \<open>message\<close> to read (an \<open>Error\<close>, or any value other than \<open>null\<close> and
  \<open>undefined\<close>); or it rejects with \<open>null\<close> or \<open>undefined\<close>, and then reading
  \<open>error.message\<close> in the \<open>catch\<close> block throws before the rescheduling is reached.
\<close>

datatype callback_outcome = Resolved | Rejected | RejectedNullish

text \<open>
  The body of the timer callback armed by \<open>scheduleReconnection\<close>, run when the timer
  fires at clock value \<open>fired\<close>. \<open>outcome\<close> tells how the awaited \<open>callback()\<close>
  settled, \<open>settled\<close> is the clock value at that moment and \<open>r\<close> the random draw of
  the nested scheduling.
\<close>

definition timer_fired ::
  "reconnection_manager \<Rightarrow> int \<Rightarrow> callback_outcome \<Rightarrow> int \<Rightarrow> rat \<Rightarrow> string
     \<Rightarrow> reconnection_manager" where
  "timer_fired rm fired outcome settled r num =
     (let rm1 = rm\<lparr>lastReconnectTime := (lastReconnectTime rm)(num \<mapsto> fired)\<rparr>
      in case outcome of
           Resolved \<Rightarrow> resetAttempts rm1 num
         | Rejected \<Rightarrow>
             if canReconnect rm1 settled num then snd (scheduleReconnection rm1 settled r num)
             else rm1
         | RejectedNullish \<Rightarrow> rm1)"

record reconnection_status =
  status_attempts :: nat
  status_maxAttempts :: int
  hasScheduledReconnect :: bool
  status_lastReconnectTime :: "int option"
  status_canReconnect :: bool

definition getStatus :: "reconnection_manager \<Rightarrow> int \<Rightarrow> string \<Rightarrow> reconnection_status" where
  "getStatus rm now num =
     \<lparr>status_attempts = getAttempts rm num,
      status_maxAttempts = maxAttempts (rconfig rm),
      hasScheduledReconnect = (reconnectTimers rm num \<noteq> None),
      status_lastReconnectTime = lastReconnectTime rm num,
      status_canReconnect = canReconnect rm now num\<rparr>"

definition cleanup :: "reconnection_manager \<Rightarrow> string \<Rightarrow> reconnection_manager" where
  "cleanup rm num =
     (let rm1 = clearTimer rm num
      in rm1\<lparr>reconnectAttempts := (reconnectAttempts rm1)(num := None),
             lastReconnectTime := (lastReconnectTime rm1)(num := None)\<rparr>)"


text \<open>
  Sequences of calls on the manager: each operation names the method, its client and the
  clock value, random draw and callback outcome it runs with.
\<close>

datatype rm_op =
  Schedule int rat string
| ClearTimer string
| TimerFired int callback_outcome int rat string
| ResetAttempts string
| Cleanup string

fun apply_rm_op :: "reconnection_manager \<Rightarrow> rm_op \<Rightarrow> reconnection_manager" where
  "apply_rm_op rm (Schedule now r num) = snd (scheduleReconnection rm now r num)"
| "apply_rm_op rm (ClearTimer num) = clearTimer rm num"
| "apply_rm_op rm (TimerFired fired outcome settled r num) =
     timer_fired rm fired outcome settled r num"
| "apply_rm_op rm (ResetAttempts num) = resetAttempts rm num"
| "apply_rm_op rm (Cleanup num) = cleanup rm num"

text \<open>
  The operations that delete the attempt counter of client \<open>num\<close>: \<open>resetAttempts\<close>,
  called directly or by the timer callback after a successful recovery, and \<open>cleanup\<close>.
\<close>

fun resets_attempts :: "string \<Rightarrow> rm_op \<Rightarrow> bool" where
  "resets_attempts num (ResetAttempts n) = (n = num)"
| "resets_attempts num (Cleanup n) = (n = num)"
| "resets_attempts num (TimerFired fired outcome settled r n) = (outcome = Resolved \<and> n = num)"
| "resets_attempts num (Schedule now r n) = False"
| "resets_attempts num (ClearTimer n) = False"

section \<open>Media queue (the \<open>MediaQueue\<close> class)\<close>

text \<open>
  A whatsapp-web.js message is opaque to the queue except for its \<open>type\<close> field.
  Priorities are numbers (the callers pass 1 or 2, the comment allows 0 to 2);
  \<open>enqueuedAt\<close> is a \<open>Date.now()\<close> value.
\<close>

record 'p message =
  msg_type :: string
  msg_payload :: 'p

record 'p job =
  messageId :: string
  job_message :: "'p message"
  clientId :: string
  priority :: int
  attempts :: nat
  enqueuedAt :: int
  job_type :: string

text \<open>
  An entry of the \<open>completed\<close> map: the media data with \<open>processedAt\<close> and
  \<open>workerId\<close>, or the error record \<open>{error: true, message, processedAt}\<close>.
\<close>

datatype 'd completed_entry =
  MediaData 'd int nat
| MediaError string int

datatype queue_event = JobEnqueued string | JobCompleted string | JobFailed string

text \<open>
  \<open>queue\<close> is a JavaScript \<open>Map\<close>, which iterates in insertion order: an association
  list with \<open>AList.update\<close> for \<open>set\<close> (an existing key keeps its place, a new key goes
  to the end) and \<open>AList.delete\<close> for \<open>delete\<close>. \<open>emitted\<close> records the events
  passed to \<open>emit\<close>, oldest first.
\<close>

record ('p, 'd) media_queue =
  queue :: "(string \<times> 'p job) list"
  processing :: "string set"
  completed :: "string \<rightharpoonup> 'd completed_entry"
  emitted :: "queue_event list"

definition new_media_queue :: "('p, 'd) media_queue" where
  "new_media_queue = \<lparr>queue = [], processing = {}, completed = Map.empty, emitted = []\<rparr>"

definition queue_has :: "('p, 'd) media_queue \<Rightarrow> string \<Rightarrow> bool" where
  "queue_has mq mid = (map_of (queue mq) mid \<noteq> None)"

datatype 'd media_status =
  StatusCompleted "'d completed_entry"
| StatusProcessing
| StatusQueued nat int
| StatusEnqueued
| StatusNotFound

text \<open>\<open>enqueue(messageId, message, clientId, priority)\<close> at clock value \<open>now\<close>.\<close>

definition enqueue ::
  "('p, 'd) media_queue \<Rightarrow> int \<Rightarrow> string \<Rightarrow> 'p message \<Rightarrow> string \<Rightarrow> int
     \<Rightarrow> 'd media_status \<times> ('p, 'd) media_queue" where
  "enqueue mq now mid msg cid prio =
     (case completed mq mid of
        Some d \<Rightarrow> (StatusCompleted d, mq)
      | None \<Rightarrow>
          if queue_has mq mid \<or> mid \<in> processing mq then (StatusProcessing, mq)
          else
            let job = \<lparr>messageId = mid, job_message = msg, clientId = cid, priority = prio,
                        attempts = 0, enqueuedAt = now, job_type = msg_type msg\<rparr>
            in (StatusEnqueued,
                mq\<lparr>queue := AList.update mid job (queue mq),
                   emitted := emitted mq @ [JobEnqueued mid]\<rparr>))"

text \<open>The comparator handed to \<open>sort\<close> in \<open>getNextJob\<close> and \<open>getQueuePosition\<close>.\<close>

definition compareJobs :: "'p job \<Rightarrow> 'p job \<Rightarrow> int" where
  "compareJobs a b =
     (if priority a \<noteq> priority b then priority a - priority b
      else enqueuedAt a - enqueuedAt b)"

text \<open>
  \<open>Array.prototype.sort\<close> with a comparator is stable: elements that compare equal keep
  their order. Insertion from the right, each element going before the first one it
  does not exceed.
\<close>

fun insert_sorted :: "('a \<Rightarrow> 'a \<Rightarrow> int) \<Rightarrow> 'a \<Rightarrow> 'a list \<Rightarrow> 'a list" where
  "insert_sorted cmp x [] = [x]"
| "insert_sorted cmp x (y # ys) =
     (if cmp x y \<le> 0 then x # y # ys else y # insert_sorted cmp x ys)"

fun js_sort :: "('a \<Rightarrow> 'a \<Rightarrow> int) \<Rightarrow> 'a list \<Rightarrow> 'a list" where
  "js_sort cmp [] = []"
| "js_sort cmp (x # xs) = insert_sorted cmp x (js_sort cmp xs)"

text \<open>\<open>findIndex\<close>: the index of the first element satisfying the test, or \<open>-1\<close>.\<close>

fun findIndex :: "('a \<Rightarrow> bool) \<Rightarrow> 'a list \<Rightarrow> int" where
  "findIndex P [] = -1"
| "findIndex P (x # xs) =
     (if P x then 0 else (let i = findIndex P xs in if i < 0 then -1 else i + 1))"

definition sorted_jobs :: "('p, 'd) media_queue \<Rightarrow> 'p job list" where
  "sorted_jobs mq = js_sort compareJobs (map snd (queue mq))"

definition getQueuePosition :: "('p, 'd) media_queue \<Rightarrow> string \<Rightarrow> nat" where
  "getQueuePosition mq mid = nat (findIndex (\<lambda>j. messageId j = mid) (sorted_jobs mq) + 1)"

definition getMediaStatus :: "('p, 'd) media_queue \<Rightarrow> string \<Rightarrow> 'd media_status" where
  "getMediaStatus mq mid =
     (case completed mq mid of
        Some d \<Rightarrow> StatusCompleted d
      | None \<Rightarrow>
          if mid \<in> processing mq then StatusProcessing
          else (case map_of (queue mq) mid of
                  Some job \<Rightarrow> StatusQueued (getQueuePosition mq mid) (enqueuedAt job)
                | None \<Rightarrow> StatusNotFound))"

text \<open>
  \<open>getNextJob()\<close>: \<open>None\<close> is the \<open>null\<close> result on an empty queue. \<open>jobs[0]\<close>
  is the head of the sorted array, which has as many elements as the queue (lemma
  \<open>length_js_sort\<close>), so the last branch is never taken.
\<close>

definition getNextJob :: "('p, 'd) media_queue \<Rightarrow> 'p job option \<times> ('p, 'd) media_queue" where
  "getNextJob mq =
     (if length (queue mq) = 0 then (None, mq)
      else
        (case sorted_jobs mq of
           job # rest \<Rightarrow>
             (Some job,
              mq\<lparr>queue := AList.delete (messageId job) (queue mq),
                 processing := insert (messageId job) (processing mq)\<rparr>)
         | [] \<Rightarrow> (None, mq)))"

text \<open>
  What \<open>processJob\<close> does to the queue once the download has settled at clock value
  \<open>now\<close>: \<open>Downloaded d\<close> when it gave media data, \<open>NoMedia\<close> when it gave
  \<open>null\<close>, \<open>Failed m\<close> when it threw or timed out with message \<open>m\<close>.
  \<open>retryAttempts\<close> is 2.
\<close>

datatype 'd download_outcome = Downloaded 'd | NoMedia | Failed string

definition retryAttempts :: nat where
  "retryAttempts = 2"

definition processJob ::
  "('p, 'd) media_queue \<Rightarrow> int \<Rightarrow> 'p job \<Rightarrow> nat \<Rightarrow> 'd download_outcome \<Rightarrow> ('p, 'd) media_queue" where
  "processJob mq now j workerId outcome =
     (let mid = messageId j;
          mq1 =
            (case outcome of
               Downloaded d \<Rightarrow>
                 mq\<lparr>completed := (completed mq)(mid \<mapsto> MediaData d now workerId),
                    emitted := emitted mq @ [JobCompleted mid]\<rparr>
             | NoMedia \<Rightarrow> mq
             | Failed m \<Rightarrow>
                 let j' = j\<lparr>attempts := attempts j + 1\<rparr>
                 in if attempts j' < retryAttempts
                    then mq\<lparr>queue := AList.update mid j' (queue mq)\<rparr>
                    else mq\<lparr>completed := (completed mq)(mid \<mapsto> MediaError m now),
                            emitted := emitted mq @ [JobFailed mid]\<rparr>)
      in mq1\<lparr>processing := processing mq1 - {mid}\<rparr>)"


section \<open>Chat cache (utils/chatCache.js)\<close>

text \<open>
  A cached chat object. \<open>unreadCount\<close> is \<open>None\<close> when the property is undefined (an
  entry created by \<open>updateChat\<close> for a chat that was not in the snapshot has none).
\<close>

record chat_data =
  chat_id :: string
  chat_name :: string
  isGroup :: bool
  unreadCount :: "int option"
  chat_timestamp :: int
  lastMessage :: "string option"
  profilePicUrl :: "string option"

record participant =
  participant_id :: string
  isAdmin :: bool
  isSuperAdmin :: bool
  participant_name :: string

text \<open>
  A group entry is a copy of the chat object with the group fields added (the raw
  \<open>metadata\<close> descriptor, \<open>null\<close> until an event fills it, is left out).
\<close>

record group_data = chat_data +
  groupId :: string
  participants :: "participant list"
  participantCount :: nat

text \<open>A chat of the snapshot handed to \<open>initializeCache\<close>, as whatsapp-web.js gives it.\<close>

record wa_chat =
  wa_id_serialized :: string
  wa_id_user :: string
  wa_name :: string
  wa_isGroup :: bool
  wa_unreadCount :: "int option"
  wa_timestamp :: int

text \<open>
  The six maps of \<open>ChatCacheManager\<close>. The unread index holds a JavaScript \<open>Set\<close> per
  client; only membership is modelled here.
\<close>

record chat_cache =
  chatCache :: "string \<rightharpoonup> (string \<rightharpoonup> chat_data)"
  unreadChats :: "string \<rightharpoonup> string set"
  groupCache :: "string \<rightharpoonup> (string \<rightharpoonup> group_data)"
  initTimestamps :: "string \<rightharpoonup> int"
  isLoaded :: "string \<rightharpoonup> bool"
  groupsLoaded :: "string \<rightharpoonup> bool"

definition new_chat_cache :: chat_cache where
  "new_chat_cache =
     \<lparr>chatCache = Map.empty, unreadChats = Map.empty, groupCache = Map.empty,
      initTimestamps = Map.empty, isLoaded = Map.empty, groupsLoaded = Map.empty\<rparr>"

text \<open>\<open>chat.unreadCount || 0\<close>\<close>

definition count_or_zero :: "int option \<Rightarrow> int" where
  "count_or_zero c = (case c of None \<Rightarrow> 0 | Some n \<Rightarrow> n)"

text \<open>
  The loop body of \<open>initializeCache\<close> on the three collections under construction
  (chat map, unread set, group map).
\<close>

definition add_snapshot_chat ::
  "wa_chat \<Rightarrow> (string \<rightharpoonup> chat_data) \<times> string set \<times> (string \<rightharpoonup> group_data)
     \<Rightarrow> (string \<rightharpoonup> chat_data) \<times> string set \<times> (string \<rightharpoonup> group_data)" where
  "add_snapshot_chat chat acc =
     (let (chatMap, unreadSet, groupMap) = acc;
          chatId = wa_id_serialized chat
      in if chatId = ''status@broadcast'' then acc
         else
           let cnt = count_or_zero (wa_unreadCount chat);
               chatData = \<lparr>chat_id = chatId, chat_name = wa_name chat, isGroup = wa_isGroup chat,
                            unreadCount = Some cnt, chat_timestamp = wa_timestamp chat,
                            lastMessage = None, profilePicUrl = None\<rparr>;
               groupMap' =
                 (if wa_isGroup chat
                  then groupMap(chatId \<mapsto>
                         chat_data.extend chatData
                           (group_data.fields (wa_id_user chat) [] 0))
                  else groupMap);
               unreadSet' = (if cnt > 0 then insert chatId unreadSet else unreadSet)
           in (chatMap(chatId \<mapsto> chatData), unreadSet', groupMap'))"

definition initializeCache :: "chat_cache \<Rightarrow> int \<Rightarrow> string \<Rightarrow> wa_chat list \<Rightarrow> chat_cache" where
  "initializeCache cc now clientNumber chats =
     (if isLoaded cc clientNumber = Some True then cc
      else
        let (chatMap, unreadSet, groupMap) =
              foldl (\<lambda>acc chat. add_snapshot_chat chat acc) (Map.empty, {}, Map.empty) chats
        in cc\<lparr>chatCache := (chatCache cc)(clientNumber \<mapsto> chatMap),
              unreadChats := (unreadChats cc)(clientNumber \<mapsto> unreadSet),
              groupCache := (groupCache cc)(clientNumber \<mapsto> groupMap),
              isLoaded := (isLoaded cc)(clientNumber \<mapsto> True),
              groupsLoaded := (groupsLoaded cc)(clientNumber \<mapsto> True),
              initTimestamps := (initTimestamps cc)(clientNumber \<mapsto> now)\<rparr>)"

text \<open>
  The write both \<open>markAsUnread\<close> and \<open>markAsRead\<close> mirror into the group cache:
  \<open>group.unreadCount = ...; group.timestamp = chat.timestamp\<close> when the chat is a group
  and the group cache has an entry for it.
\<close>

definition mirror_to_group ::
  "chat_cache \<Rightarrow> string \<Rightarrow> string \<Rightarrow> chat_data \<Rightarrow> chat_cache" where
  "mirror_to_group cc clientNumber chatId chat =
     (if isGroup chat then
        (case groupCache cc clientNumber of
           None \<Rightarrow> cc
         | Some groupMap \<Rightarrow>
             (case groupMap chatId of
                None \<Rightarrow> cc
              | Some grp \<Rightarrow>
                  cc\<lparr>groupCache := (groupCache cc)(clientNumber \<mapsto>
                        groupMap(chatId \<mapsto>
                          grp\<lparr>unreadCount := unreadCount chat,
                              chat_timestamp := chat_timestamp chat\<rparr>))\<rparr>))
      else cc)"

text \<open>\<open>markAsUnread(clientNumber, chatId, incrementBy)\<close> at clock value \<open>now\<close>
  (\<open>incrementBy\<close> defaults to 1).\<close>

definition markAsUnread :: "chat_cache \<Rightarrow> int \<Rightarrow> string \<Rightarrow> string \<Rightarrow> int \<Rightarrow> chat_cache" where
  "markAsUnread cc now clientNumber chatId incrementBy =
     (case (chatCache cc clientNumber, unreadChats cc clientNumber) of
        (Some clientCache, Some unreadSet) \<Rightarrow>
          let cc1 =
                (case clientCache chatId of
                   None \<Rightarrow> cc
                 | Some chat \<Rightarrow>
                     let chat' = chat\<lparr>unreadCount := Some (count_or_zero (unreadCount chat) + incrementBy),
                                      chat_timestamp := now\<rparr>;
                         cc' = cc\<lparr>chatCache := (chatCache cc)(clientNumber \<mapsto>
                                   clientCache(chatId \<mapsto> chat'))\<rparr>
                     in mirror_to_group cc' clientNumber chatId chat')
          in cc1\<lparr>unreadChats := (unreadChats cc1)(clientNumber \<mapsto> insert chatId unreadSet)\<rparr>
      | _ \<Rightarrow> cc)"

text \<open>\<open>markAsRead(clientNumber, chatId)\<close> at clock value \<open>now\<close>.\<close>

definition markAsRead :: "chat_cache \<Rightarrow> int \<Rightarrow> string \<Rightarrow> string \<Rightarrow> chat_cache" where
  "markAsRead cc now clientNumber chatId =
     (case (chatCache cc clientNumber, unreadChats cc clientNumber) of
        (Some clientCache, Some unreadSet) \<Rightarrow>
          let cc1 =
                (case clientCache chatId of
                   None \<Rightarrow> cc
                 | Some chat \<Rightarrow>
                     let chat' = chat\<lparr>unreadCount := Some 0, chat_timestamp := now\<rparr>;
                         cc' = cc\<lparr>chatCache := (chatCache cc)(clientNumber \<mapsto>
                                   clientCache(chatId \<mapsto> chat'))\<rparr>
                     in mirror_to_group cc' clientNumber chatId chat')
          in cc1\<lparr>unreadChats := (unreadChats cc1)(clientNumber \<mapsto> unreadSet - {chatId})\<rparr>
      | _ \<Rightarrow> cc)"

definition clearCache :: "chat_cache \<Rightarrow> string \<Rightarrow> chat_cache" where
  "clearCache cc clientNumber =
     cc\<lparr>chatCache := (chatCache cc)(clientNumber := None),
        unreadChats := (unreadChats cc)(clientNumber := None),
        groupCache := (groupCache cc)(clientNumber := None),
        isLoaded := (isLoaded cc)(clientNumber := None),
        groupsLoaded := (groupsLoaded cc)(clientNumber := None),
        initTimestamps := (initTimestamps cc)(clientNumber := None)\<rparr>"

text \<open>The unread count of a cached chat and membership in the unread index, as read back.\<close>

definition cached_chat :: "chat_cache \<Rightarrow> string \<Rightarrow> string \<Rightarrow> chat_data option" where
  "cached_chat cc clientNumber chatId =
     (case chatCache cc clientNumber of None \<Rightarrow> None | Some clientCache \<Rightarrow> clientCache chatId)"

definition in_unread_index :: "chat_cache \<Rightarrow> string \<Rightarrow> string \<Rightarrow> bool" where
  "in_unread_index cc clientNumber chatId =
     (case unreadChats cc clientNumber of None \<Rightarrow> False | Some unreadSet \<Rightarrow> chatId \<in> unreadSet)"

text \<open>
  \<open>initializeCache\<close> sets and \<open>clearCache\<close> deletes the chat map and the unread set of a
  client together, and no other method adds or removes either: a client has both or neither.
\<close>

definition cache_paired :: "chat_cache \<Rightarrow> string \<Rightarrow> bool" where
  "cache_paired cc clientNumber =
     ((chatCache cc clientNumber = None) = (unreadChats cc clientNumber = None))"


section \<open>Watchdog monitor (the \<open>WatchdogMonitor\<close> class)\<close>

record thresholds =
  maxStateAge :: int
  maxQrAge :: int
  maxInitializationTime :: int
  zombieTimeout :: int

text \<open>The four environment variables after \<open>parseInt\<close>, and the thresholds built from them.\<close>

record watchdog_env =
  MAX_STATE_AGE :: "int option"
  MAX_QR_AGE :: "int option"
  MAX_INIT_TIME :: "int option"
  ZOMBIE_TIMEOUT :: "int option"

definition thresholds_of :: "watchdog_env \<Rightarrow> thresholds" where
  "thresholds_of e =
     \<lparr>maxStateAge = or_default (MAX_STATE_AGE e) 900000,
      maxQrAge = or_default (MAX_QR_AGE e) 180000,
      maxInitializationTime = or_default (MAX_INIT_TIME e) 300000,
      zombieTimeout = or_default (ZOMBIE_TIMEOUT e) 600000\<rparr>"

definition default_thresholds :: thresholds where
  "default_thresholds =
     thresholds_of \<lparr>MAX_STATE_AGE = None, MAX_QR_AGE = None, MAX_INIT_TIME = None,
                     ZOMBIE_TIMEOUT = None\<rparr>"

text \<open>
  \<open>stateAge > threshold\<close> where \<open>stateAge\<close> may be \<open>null\<close>: the comparison converts
  \<open>null\<close> to \<open>0\<close>.
\<close>

definition age_exceeds :: "int option \<Rightarrow> int \<Rightarrow> bool" where
  "age_exceeds stateAge limit = (case stateAge of None \<Rightarrow> 0 > limit | Some a \<Rightarrow> a > limit)"

text \<open>
  \<open>checkStateValid(number, state)\<close> at clock value \<open>now\<close>: \<open>st\<close> is the state object
  the caller read earlier, the age is read from the state manager again.
\<close>

definition checkStateValid ::
  "thresholds \<Rightarrow> 'm state_manager \<Rightarrow> int \<Rightarrow> string \<Rightarrow> 'm state_entry option \<Rightarrow> bool" where
  "checkStateValid th sm now num st =
     (case st of
        None \<Rightarrow> False
      | Some s \<Rightarrow>
          let stateAge = getStateAge sm now num
          in if state s = WAITING_QR \<and> age_exceeds stateAge (maxQrAge th) then False
             else if state s = INITIALIZING \<and> age_exceeds stateAge (maxInitializationTime th)
               then False
             else if state s \<in> set [AUTHENTICATING, RECONNECTING, DISCONNECTED]
                     \<and> age_exceeds stateAge (maxStateAge th)
               then False
             else True)"

record checks =
  processAlive :: bool
  browserResponsive :: bool
  stateValid :: bool
  websocketActive :: bool

text \<open>The metadata objects the watchdog passes to \<open>setState\<close>.\<close>

datatype wd_metadata = Reason string | ReasonChecks string checks

text \<open>
  The session capability is external. What the recovery code reads of a client object is
  whether it has a page; what it calls are \<open>client.initialize()\<close>,
  \<open>client.pupPage.reload()\<close> and \<open>whatsappClient.cleanupClient(client)\<close> (which
  catches its own errors). The calls are recorded in order; whether \<open>initialize\<close> and
  \<open>reload\<close> throw is given by \<open>session_outcomes\<close>.
\<close>

record client =
  has_pupPage :: bool

datatype session_call = CallInitialize string | CallReload string | CallCleanupClient string

record session_outcomes =
  initialize_throws :: bool
  reload_throws :: bool

record world =
  w_states :: "wd_metadata state_manager"
  w_reconnect :: reconnection_manager
  w_clients :: "string \<rightharpoonup> client"
  w_calls :: "session_call list"

text \<open>
  The recovery methods at clock value \<open>now\<close>, with \<open>r\<close> the random draw of the
  scheduling. Each returns its boolean result and the world after it. In
  \<open>fullRestart\<close> nothing inside the \<open>try\<close> throws (\<open>cleanupClient\<close> catches its own
  errors), so its \<open>catch\<close> branch with the result \<open>false\<close> has no counterpart here.
\<close>

definition fullRestart :: "world \<Rightarrow> int \<Rightarrow> rat \<Rightarrow> string \<Rightarrow> bool \<times> world" where
  "fullRestart w now r num =
     (let w1 = (case w_clients w num of
                  None \<Rightarrow> w
                | Some c \<Rightarrow> w\<lparr>w_calls := w_calls w @ [CallCleanupClient num]\<rparr>);
          w2 = w1\<lparr>w_clients := (w_clients w1)(num := None)\<rparr>;
          (res, rm') = scheduleReconnection (w_reconnect w2) now r num
      in (True, w2\<lparr>w_reconnect := rm'\<rparr>))"

definition refreshClient ::
  "world \<Rightarrow> int \<Rightarrow> rat \<Rightarrow> session_outcomes \<Rightarrow> string \<Rightarrow> bool \<times> world" where
  "refreshClient w now r out num =
     (case w_clients w num of
        None \<Rightarrow> (False, w)
      | Some c \<Rightarrow>
          let w1 = w\<lparr>w_calls := w_calls w @ [CallInitialize num]\<rparr>
          in if initialize_throws out then fullRestart w1 now r num
             else (True,
                   w1\<lparr>w_states :=
                        snd (setState (w_states w1) num INITIALIZING (Reason ''Watchdog refresh'') now)\<rparr>))"

definition reconnectWebSocket ::
  "world \<Rightarrow> int \<Rightarrow> rat \<Rightarrow> session_outcomes \<Rightarrow> string \<Rightarrow> bool \<times> world" where
  "reconnectWebSocket w now r out num =
     (case w_clients w num of
        None \<Rightarrow> (False, w)
      | Some c \<Rightarrow>
          if \<not> has_pupPage c then (False, w)
          else
            let w1 = w\<lparr>w_calls := w_calls w @ [CallReload num]\<rparr>
            in if reload_throws out then fullRestart w1 now r num
               else (True,
                     w1\<lparr>w_states :=
                          snd (setState (w_states w1) num RECONNECTING
                                 (Reason ''WebSocket reconnection'') now)\<rparr>))"

text \<open>\<open>attemptRecovery(number, failedChecks)\<close>: \<open>None\<close> when no branch returns.\<close>

definition attemptRecovery ::
  "world \<Rightarrow> int \<Rightarrow> rat \<Rightarrow> session_outcomes \<Rightarrow> string \<Rightarrow> checks \<Rightarrow> bool option \<times> world" where
  "attemptRecovery w now r out num failedChecks =
     (if \<not> processAlive failedChecks \<or> \<not> browserResponsive failedChecks then
        let w1 = w\<lparr>w_states :=
                    snd (setState (w_states w) num RECONNECTING
                           (ReasonChecks ''Process/Browser failure'' failedChecks) now)\<rparr>;
            (res, w2) = fullRestart w1 now r num
        in (Some res, w2)
      else if \<not> stateValid failedChecks then
        let (res, w1) = refreshClient w now r out num in (Some res, w1)
      else if \<not> websocketActive failedChecks then
        let (res, w1) = reconnectWebSocket w now r out num in (Some res, w1)
      else (None, w))"


section \<open>Properties of the state manager\<close>

lemmas CLIENT_STATES_defs =
  INITIALIZING_def WAITING_QR_def AUTHENTICATING_def AUTHENTICATED_def READY_def
  DISCONNECTED_def AUTH_FAILURE_def ERROR_def RECONNECTING_def ZOMBIE_def

lemma getState_setState:
  "getState (snd (setState sm num st md now)) num' =
     (if num' = num
      then Some \<lparr>state = st, timestamp = now, metadata = md,
                 previousState = map_option state (states sm num)\<rparr>
      else getState sm num')"
  by (simp add: getState_def setState_def Let_def)

lemma getHistory_setState:
  "getHistory (snd (setState sm num st md now)) num' =
     (if num' = num then push_capped (getHistory sm num) (fst (setState sm num st md now))
      else getHistory sm num')"
  by (simp add: getHistory_def setState_def Let_def)

lemma number_setState: "number (fst (setState sm num st md now)) = num"
  by (simp add: setState_def Let_def)

lemma push_capped_length: "length h \<le> 50 \<Longrightarrow> length (push_capped h c) \<le> 50"
  by (simp add: push_capped_def Let_def)

text \<open>
  Pushing onto a history of at most 50 entries and then appending \<open>rest\<close> keeps the same
  last 50 entries as appending everything to the uncapped history.
\<close>

lemma push_capped_last_50:
  assumes "length h \<le> 50"
  shows "drop (length (push_capped h c @ rest) - 50) (push_capped h c @ rest)
       = drop (length (h @ c # rest) - 50) (h @ c # rest)"
proof (cases "length h = 50")
  case True
  then have "h \<noteq> []" by auto
  then obtain x h' where h: "h = x # h'" by (cases h) auto
  with True have "length h' = 49" by simp
  then show ?thesis using h by (simp add: push_capped_def Let_def)
next
  case False
  with assms have "length h < 50" by simp
  then show ?thesis by (simp add: push_capped_def Let_def)
qed

lemma setState_calls_history:
  "length (getHistory sm num) \<le> 50 \<Longrightarrow>
   getHistory (snd (setState_calls sm calls)) num =
     (let l = getHistory sm num @ filter (\<lambda>c. number c = num) (fst (setState_calls sm calls))
      in drop (length l - 50) l)"
proof (induction calls arbitrary: sm)
  case Nil
  then show ?case by simp
next
  case (Cons call calls)
  obtain n st md now where call: "call = (n, st, md, now)" by (cases call) auto
  define c where "c = fst (setState sm n st md now)"
  define sm' where "sm' = snd (setState sm n st md now)"
  have step: "setState sm n st md now = (c, sm')" by (simp add: c_def sm'_def)
  have nc: "number c = n" by (simp add: c_def number_setState)
  have h': "getHistory sm' num =
      (if num = n then push_capped (getHistory sm num) c else getHistory sm num)"
    by (simp add: sm'_def c_def getHistory_setState)
  have len: "length (getHistory sm' num) \<le> 50"
    using Cons.prems by (auto simp: h' push_capped_length)
  have unfold: "setState_calls sm (call # calls) =
      (c # fst (setState_calls sm' calls), snd (setState_calls sm' calls))"
    by (simp add: call step split: prod.splits)
  show ?case
  proof (cases "num = n")
    case True
    show ?thesis
      using Cons.IH[OF len] Cons.prems True nc h' push_capped_last_50[of "getHistory sm n" c]
      by (simp add: unfold Let_def)
  next
    case False
    show ?thesis
      using Cons.IH[OF len] False nc h'
      by (simp add: unfold Let_def)
  qed
qed

text \<open>
  C2. Run any sequence of \<open>setState\<close> calls on a fresh manager and collect the
  transition records they return, in call order. For every client, \<open>getHistory\<close> is
  exactly the last 50 of that client's records, in the same order (so the most recent is
  last and whatever was dropped was dropped from the old end), and it never has more than
  50 entries. In any manager, one \<open>setState\<close> appends its record to the client's history
  and, when that makes more than 50 entries, removes the first (oldest) one.
\<close>

theorem getHistory_last_50:
  "getHistory (snd (setState_calls new_state_manager calls)) num =
     (let l = filter (\<lambda>c. number c = num) (fst (setState_calls new_state_manager calls))
      in drop (length l - 50) l)
   \<and> length (getHistory (snd (setState_calls new_state_manager calls)) num) \<le> 50
   \<and> getHistory (snd (setState sm num st md now)) num =
       (let h = getHistory sm num @ [fst (setState sm num st md now)]
        in if length h > 50 then tl h else h)"
proof -
  have one: "getHistory (snd (setState sm num st md now)) num =
       (let h = getHistory sm num @ [fst (setState sm num st md now)]
        in if length h > 50 then tl h else h)"
    by (simp add: getHistory_setState push_capped_def)
  have e: "getHistory (new_state_manager :: 'a state_manager) num = []"
    by (simp add: getHistory_def new_state_manager_def)
  have "getHistory (snd (setState_calls new_state_manager calls)) num =
     (let l = filter (\<lambda>c. number c = num) (fst (setState_calls new_state_manager calls))
      in drop (length l - 50) l)"
    using setState_calls_history[of new_state_manager num calls] by (simp add: e)
  then have "getHistory (snd (setState_calls new_state_manager calls)) num =
     (let l = filter (\<lambda>c. number c = num) (fst (setState_calls new_state_manager calls))
      in drop (length l - 50) l)
   \<and> length (getHistory (snd (setState_calls new_state_manager calls)) num) \<le> 50"
    by (simp add: Let_def)
  with one show ?thesis by blast
qed

lemma isHealthy_iff:
  "isHealthy sm num =
     (\<exists>e. getState sm num = Some e \<and> (state e = AUTHENTICATED \<or> state e = READY))"
  by (auto simp: isHealthy_def split: option.splits)

lemma isHealthy_setState:
  "isHealthy (snd (setState sm num st md now)) num = (st = AUTHENTICATED \<or> st = READY)"
  by (auto simp: isHealthy_iff getState_setState)

lemma isHealthy_absent: "getState sm num = None \<Longrightarrow> \<not> isHealthy sm num"
  by (simp add: isHealthy_iff)

text \<open>
  C9. \<open>isHealthy\<close> is true exactly when the client has a state entry whose state is
  \<open>AUTHENTICATED\<close> or \<open>READY\<close>. After \<open>setState\<close> to either of these it is true;
  after \<open>setState\<close> to any of the other eight states of \<open>CLIENT_STATES\<close> it is false
  (state by state, and over the whole list in its declaration order);
  and it is false for a client without an entry (after \<open>clearState\<close>, or in a fresh
  manager).
\<close>

theorem isHealthy_authenticated_or_ready:
  "(isHealthy sm num \<longleftrightarrow>
      (\<exists>e. getState sm num = Some e \<and> (state e = AUTHENTICATED \<or> state e = READY)))
   \<and> isHealthy (snd (setState sm num AUTHENTICATED md now)) num
   \<and> isHealthy (snd (setState sm num READY md now)) num
   \<and> \<not> isHealthy (snd (setState sm num INITIALIZING md now)) num
   \<and> \<not> isHealthy (snd (setState sm num WAITING_QR md now)) num
   \<and> \<not> isHealthy (snd (setState sm num AUTHENTICATING md now)) num
   \<and> \<not> isHealthy (snd (setState sm num DISCONNECTED md now)) num
   \<and> \<not> isHealthy (snd (setState sm num AUTH_FAILURE md now)) num
   \<and> \<not> isHealthy (snd (setState sm num ERROR md now)) num
   \<and> \<not> isHealthy (snd (setState sm num RECONNECTING md now)) num
   \<and> \<not> isHealthy (snd (setState sm num ZOMBIE md now)) num
   \<and> map (\<lambda>s. isHealthy (snd (setState sm num s md now)) num) CLIENT_STATES
        = [False, False, False, True, True, False, False, False, False, False]
   \<and> \<not> isHealthy (clearState sm num) num
   \<and> \<not> isHealthy (new_state_manager :: 'm state_manager) num"
proof -
  have absent1: "\<not> isHealthy (clearState sm num) num"
    by (rule isHealthy_absent) (simp add: getState_def clearState_def)
  have absent2: "\<not> isHealthy (new_state_manager :: 'm state_manager) num"
    by (rule isHealthy_absent) (simp add: getState_def new_state_manager_def)
  show ?thesis
    using isHealthy_iff[of sm num] absent1 absent2
    by (simp add: isHealthy_setState CLIENT_STATES_def CLIENT_STATES_defs)
qed


section \<open>Properties of double rounding\<close>

lemma binade_bounds:
  assumes "0 < x"
  shows "2 powi binade x \<le> x" and "x < 2 powi (binade x + 1)"
proof -
  have "2 powi binade x \<le> x \<and> x < 2 powi (binade x + 1)"
  proof (cases "1 \<le> x")
    case True
    define n where "n = \<lfloor>x\<rfloor>"
    have n1: "1 \<le> n" using True by (simp add: n_def le_floor_iff)
    then have n0: "0 < n" by simp
    have bl: "1 \<le> bitlen n" using n0 by (simp add: bitlen_alt_def)
    have b: "binade x = bitlen n - 1" using True by (simp add: binade_def n_def)
    have lo: "(2::int) ^ nat (bitlen n - 1) \<le> n" and hi: "n < 2 ^ nat (bitlen n)"
      using bitlen_bounds[OF n0] by simp_all
    have "(2::rat) powi (bitlen n - 1) = of_int (2 ^ nat (bitlen n - 1))"
      using bl by (simp add: power_int_nonneg_exp)
    also have "\<dots> \<le> of_int n" using lo by (simp only: of_int_le_iff)
    also have "\<dots> \<le> x" by (simp add: n_def)
    finally have 1: "2 powi binade x \<le> x" by (simp add: b)
    have "n + 1 \<le> 2 ^ nat (bitlen n)" using hi by simp
    then have "(of_int (n + 1) :: rat) \<le> of_int (2 ^ nat (bitlen n))"
      by (simp only: of_int_le_iff)
    moreover have "x < of_int (n + 1)" using floor_correct[of x] by (simp add: n_def)
    moreover have "(2::rat) powi (bitlen n) = of_int (2 ^ nat (bitlen n))"
      using bl by (simp add: power_int_nonneg_exp)
    ultimately have 2: "x < 2 powi (binade x + 1)" by (simp add: b)
    from 1 2 show ?thesis by simp
  next
    case False
    then have x1: "x < 1" by simp
    define z where "z = 1 / x"
    define m where "m = \<lceil>z\<rceil>"
    have z1: "1 < z" using assms x1 by (simp add: z_def)
    have m2: "2 \<le> m" using z1 by (simp add: m_def)
    then have m0: "0 < m - 1" by simp
    define L where "L = bitlen (m - 1)"
    have L1: "1 \<le> L" using m0 by (simp add: L_def bitlen_alt_def)
    have b: "binade x = - L" using False by (simp add: binade_def L_def m_def z_def)
    have lo: "(2::int) ^ nat (L - 1) \<le> m - 1" and hi: "m - 1 < 2 ^ nat L"
      using bitlen_bounds[OF m0] by (simp_all add: L_def)
    have zm: "z \<le> of_int m" by (simp add: m_def)
    have mz: "of_int (m - 1) < z" by (simp add: m_def) linarith
    have "m \<le> 2 ^ nat L" using hi by simp
    then have "(of_int m :: rat) \<le> of_int (2 ^ nat L)" by (simp only: of_int_le_iff)
    then have "(of_int m :: rat) \<le> 2 ^ nat L" by simp
    with zm have zL: "z \<le> 2 ^ nat L" by (rule order_trans)
    have "(of_int (2 ^ nat (L - 1)) :: rat) \<le> of_int (m - 1)" using lo by (simp only: of_int_le_iff)
    then have "(2 :: rat) ^ nat (L - 1) \<le> of_int (m - 1)" by simp
    then have Lz: "2 ^ nat (L - 1) < z" using mz by (rule le_less_trans)
    have p1: "(2::rat) powi (- L) = 1 / 2 ^ nat L"
      using L1 by (simp add: power_int_minus_divide power_int_nonneg_exp)
    have p2: "(2::rat) powi (1 - L) = 1 / 2 ^ nat (L - 1)"
    proof -
      have "1 - L = - (L - 1)" by simp
      then show ?thesis using L1
        by (simp only: power_int_minus_divide) (simp add: power_int_nonneg_exp)
    qed
    have 1: "2 powi binade x \<le> x"
    proof -
      have "1 / 2 ^ nat L \<le> 1 / z" using zL z1 by (intro divide_left_mono) simp_all
      then show ?thesis using assms by (simp add: b p1 z_def)
    qed
    have 2: "x < 2 powi (binade x + 1)"
    proof -
      have "1 / z < 1 / 2 ^ nat (L - 1)" using Lz z1 by (intro divide_strict_left_mono) simp_all
      then show ?thesis using assms by (simp add: b p2 z_def)
    qed
    from 1 2 show ?thesis by simp
  qed
  then show "2 powi binade x \<le> x" and "x < 2 powi (binade x + 1)" by simp_all
qed

lemma two_powi_less_imp: "(2::rat) powi a < 2 powi b \<Longrightarrow> a < b"
  by (rule ccontr) (simp add: not_less power_int_increasing leD)

lemma binade_unique:
  assumes "0 < x" "2 powi e \<le> x" "x < 2 powi (e + 1)"
  shows "binade x = e"
proof -
  have "(2::rat) powi e < 2 powi (binade x + 1)"
    using assms(2) binade_bounds(2)[OF assms(1)] by simp
  then have "e < binade x + 1" by (rule two_powi_less_imp)
  moreover have "(2::rat) powi binade x < 2 powi (e + 1)"
    using assms(3) binade_bounds(1)[OF assms(1)] by simp
  then have "binade x < e + 1" by (rule two_powi_less_imp)
  ultimately show ?thesis by simp
qed

lemma binade_mono:
  assumes "0 < x" "x \<le> y"
  shows "binade x \<le> binade y"
proof -
  have y: "0 < y" using assms by simp
  have "(2::rat) powi binade x < 2 powi (binade y + 1)"
    using binade_bounds(1)[OF assms(1)] binade_bounds(2)[OF y] assms(2) by simp
  then have "binade x < binade y + 1" by (rule two_powi_less_imp)
  then show ?thesis by simp
qed

lemma round_half_even_ge: "of_int n \<le> q \<Longrightarrow> n \<le> round_half_even q"
  using le_floor_iff[of n q] by (auto simp: round_half_even_def Let_def)


lemma round_half_even_of_int [simp]: "round_half_even (of_int n) = n"
  by (simp add: round_half_even_def)

lemma round_half_even_minus: "round_half_even (- q) = - round_half_even q"
proof (cases "\<exists>k. q = of_int k")
  case True
  then obtain n where n: "q = of_int n" by blast
  then have "- q = of_int (- n)" by simp
  then have "round_half_even (- q) = - n" by (simp only: round_half_even_of_int)
  then show ?thesis by (simp add: n)
next
  case False
  define n where "n = \<lfloor>q\<rfloor>"
  have lt1: "of_int n < q"
    unfolding n_def using False of_int_floor_le[of q] by (metis order_le_less)
  have lt2: "q < of_int n + 1" using floor_correct[of q] by (simp add: n_def)
  have fm: "\<lfloor>- q\<rfloor> = - n - 1"
    using lt1 lt2 by (intro floor_unique) simp_all
  have e: "even (- n - 1) \<longleftrightarrow> odd n" by simp
  show ?thesis
    unfolding round_half_even_def Let_def fm n_def[symmetric] e
    using lt1 lt2 by (auto simp: field_simps)
qed


lemma round_half_even_nearest: "\<bar>q - of_int n\<bar> < 1 / 2 \<Longrightarrow> round_half_even q = n"
proof -
  assume a: "\<bar>q - of_int n\<bar> < 1 / 2"
  show ?thesis
  proof (cases "of_int n \<le> q")
    case True
    then have f: "\<lfloor>q\<rfloor> = n" using a by (intro floor_unique) simp_all
    show ?thesis using a True by (simp add: round_half_even_def Let_def f)
  next
    case False
    then have f: "\<lfloor>q\<rfloor> = n - 1" using a by (intro floor_unique) simp_all
    show ?thesis using a False by (simp add: round_half_even_def Let_def f)
  qed
qed

lemma round_double_minus: "round_double (- x) = js_neg (round_double x)"
  by (auto simp: round_double_def Let_def round_half_even_minus)


lemma is_double_zero: "is_double 0"
  by (simp add: is_double_def round_double_def)

lemma is_double_decomp:
  assumes "is_double a" "a \<noteq> 0"
  obtains k where "a = of_int k * 2 powi (max (binade \<bar>a\<bar>) (- 1022) - 52)"
    and "\<bar>a\<bar> < overflow_threshold"
proof -
  define u :: rat where "u = 2 powi (max (binade \<bar>a\<bar>) (- 1022) - 52)"
  define y where "y = of_int (round_half_even (a / u)) * u"
  have "round_double a =
      (if overflow_threshold \<le> \<bar>y\<bar> then (if 0 < a then PosInfinity else NegInfinity) else Num y)"
    unfolding round_double_def Let_def y_def u_def using assms(2) by (simp only: if_False)
  then have "(if overflow_threshold \<le> \<bar>y\<bar> then (if 0 < a then PosInfinity else NegInfinity)
      else Num y) = Num a"
    using assms(1) by (simp only: is_double_def)
  then have "\<not> overflow_threshold \<le> \<bar>y\<bar>" and "y = a"
    by (auto split: if_splits)
  then show ?thesis using that[of "round_half_even (a / u)"] by (simp add: y_def u_def)
qed

lemma threshold_gt: "2 powi 53 < overflow_threshold"
  by (simp add: overflow_threshold_def)

lemma two_powi_pos [simp]: "0 < (2::rat) powi n"
  by simp

lemma two_powi_add: "(2::rat) powi (m + n) = 2 powi m * 2 powi n"
  by (rule power_int_add) simp

lemma two_powi_mono: "m \<le> n \<Longrightarrow> (2::rat) powi m \<le> 2 powi n"
  by (rule power_int_increasing) simp_all

lemma round_double_pos_lower:
  assumes "0 < a" "is_double a" "a \<le> x"
  shows "round_double x = PosInfinity \<or> (\<exists>y. round_double x = Num y \<and> a \<le> y)"
proof -
  have x0: "0 < x" using assms by simp
  define Ea where "Ea = max (binade \<bar>a\<bar>) (- 1022)"
  define Ex where "Ex = max (binade \<bar>x\<bar>) (- 1022)"
  define ux :: rat where "ux = 2 powi (Ex - 52)"
  define y where "y = of_int (round_half_even (x / ux)) * ux"
  have ux0: "0 < ux" by (simp add: ux_def)
  obtain k where k: "a = of_int k * 2 powi (Ea - 52)"
    using is_double_decomp[OF assms(2)] assms(1) unfolding Ea_def by auto
  have bm: "binade \<bar>a\<bar> \<le> binade \<bar>x\<bar>"
    using binade_mono[of a x] assms x0 by simp
  then have EaEx: "Ea \<le> Ex" by (simp add: Ea_def Ex_def)
  have ay: "a \<le> y"
  proof (cases "Ea = Ex")
    case True
    then have a: "a = of_int k * ux" by (simp add: k ux_def)
    have "a / ux \<le> x / ux" using assms(3) ux0 by (simp add: divide_right_mono)
    then have "of_int k \<le> x / ux" using ux0 by (simp add: a)
    then have "k \<le> round_half_even (x / ux)" by (rule round_half_even_ge)
    then have "(of_int k :: rat) \<le> of_int (round_half_even (x / ux))" by (simp only: of_int_le_iff)
    then show ?thesis unfolding a y_def using ux0 by (simp add: mult_right_mono)
  next
    case False
    with EaEx have lt: "Ea < Ex" by simp
    then have Ex: "Ex = binade x" using x0 by (simp add: Ex_def Ea_def max_def split: if_splits)
    have xlo: "2 powi Ex \<le> x" unfolding Ex using x0 by (rule binade_bounds(1))
    have "2 powi Ex / ux = 2 powi 52"
    proof -
      have "(2::rat) powi Ex = 2 powi (52 + (Ex - 52))" by simp
      also have "\<dots> = 2 powi 52 * ux" unfolding ux_def by (rule two_powi_add)
      finally show ?thesis using ux0 by simp
    qed
    moreover have "2 powi Ex / ux \<le> x / ux" using xlo ux0 by (simp add: divide_right_mono)
    ultimately have "of_int (2 ^ 52) \<le> x / ux" by simp
    then have "2 ^ 52 \<le> round_half_even (x / ux)" by (rule round_half_even_ge)
    then have "(of_int (2 ^ 52) :: rat) \<le> of_int (round_half_even (x / ux))"
      by (simp only: of_int_le_iff)
    then have "of_int (2 ^ 52) * ux \<le> y" unfolding y_def using ux0 by (simp add: mult_right_mono)
    moreover have "of_int (2 ^ 52) * ux = 2 powi Ex"
    proof -
      have "(2::rat) powi Ex = 2 powi (52 + (Ex - 52))" by simp
      also have "\<dots> = 2 powi 52 * ux" unfolding ux_def by (rule two_powi_add)
      finally show ?thesis by simp
    qed
    ultimately have ylo: "2 powi Ex \<le> y" by simp
    have "a < 2 powi (binade a + 1)" using assms(1) by (rule binade_bounds(2))
    also have "\<dots> \<le> 2 powi Ex"
      using lt assms(1) by (intro two_powi_mono) (simp add: Ea_def)
    finally show ?thesis using ylo by simp
  qed
  have "round_double x = (if overflow_threshold \<le> \<bar>y\<bar> then PosInfinity else Num y)"
    using x0 by (simp add: round_double_def Let_def y_def ux_def Ex_def)
  then show ?thesis using ay by auto
qed




lemma is_double_of_int:
  assumes "\<bar>m\<bar> < 2 ^ 53"
  shows "is_double (of_int m)"
proof (cases "m = 0")
  case True
  then show ?thesis by (simp add: is_double_zero)
next
  case False
  define x :: rat where "x = of_int m"
  have ax: "\<bar>x\<bar> = of_int \<bar>m\<bar>" by (simp add: x_def)
  have "1 \<le> \<bar>m\<bar>" using False by simp
  then have "(of_int 1 :: rat) \<le> of_int \<bar>m\<bar>" by (simp only: of_int_le_iff)
  then have x1: "1 \<le> \<bar>x\<bar>" by (simp add: ax)
  then have x0: "0 < \<bar>x\<bar>" by simp
  have "(of_int \<bar>m\<bar> :: rat) < of_int (2 ^ 53)" using assms by (simp only: of_int_less_iff)
  then have xhi: "\<bar>x\<bar> < 2 powi 53" by (simp add: ax)
  define E where "E = binade \<bar>x\<bar>"
  have "(2::rat) powi 0 < 2 powi (E + 1)"
    using x1 binade_bounds(2)[OF x0] by (simp add: E_def)
  then have E0: "0 \<le> E" using two_powi_less_imp[of 0 "E + 1"] by simp
  have "(2::rat) powi E < 2 powi 53"
    using xhi binade_bounds(1)[OF x0] by (simp add: E_def)
  then have E52: "E \<le> 52" using two_powi_less_imp[of E 53] by simp
  define u :: rat where "u = 2 powi (E - 52)"
  have u0: "0 < u" by (simp add: u_def)
  have ui: "1 / u = of_int (2 ^ nat (52 - E))"
  proof -
    have "u * 2 powi (52 - E) = 2 powi ((E - 52) + (52 - E))"
      unfolding u_def by (rule two_powi_add[symmetric])
    then have "u * 2 powi (52 - E) = 1" by simp
    moreover have "(2::rat) powi (52 - E) = 2 ^ nat (52 - E)"
      using E52 by (simp add: power_int_nonneg_exp)
    ultimately show ?thesis using u0 by (simp add: field_simps)
  qed
  have "x / u = x * (1 / u)" by simp
  also have "\<dots> = of_int (m * 2 ^ nat (52 - E))" unfolding ui by (simp add: x_def)
  finally have q: "x / u = of_int (m * 2 ^ nat (52 - E))" .
  have y: "of_int (round_half_even (x / u)) * u = x"
  proof -
    have "of_int (round_half_even (x / u)) * u = (x / u) * u"
      unfolding q by (simp only: round_half_even_of_int)
    then show ?thesis using u0 by simp
  qed
  have fin: "\<not> overflow_threshold \<le> \<bar>x\<bar>"
    using xhi threshold_gt by simp
  have xn: "x \<noteq> 0" using x0 by simp
  have "max E (- 1022) = E" using E0 by simp
  then have "round_double x = Num x"
    using xn fin y unfolding round_double_def Let_def E_def[symmetric] u_def[symmetric]
    by (simp add: u_def)
  then show ?thesis by (simp add: is_double_def x_def)
qed

text \<open>A positive value in the normal range rounds to the multiple of its spacing nearest to it.\<close>

lemma round_double_nearest:
  assumes "0 < x" "2 powi e \<le> x" "x < 2 powi (e + 1)" "- 1022 \<le> e"
    and "\<bar>x / 2 powi (e - 52) - of_int n\<bar> < 1 / 2"
    and "\<bar>of_int n * 2 powi (e - 52)\<bar> < (2::rat) powi 53"
  shows "round_double x = Num (of_int n * 2 powi (e - 52))"
proof -
  have b: "binade x = e" using assms(1-3) by (rule binade_unique)
  have m: "max e (- 1022) = e" using assms(4) by simp
  have r: "round_half_even (x / 2 powi (e - 52)) = n"
    using assms(5) by (rule round_half_even_nearest)
  have "\<not> overflow_threshold \<le> \<bar>of_int n * 2 powi (e - 52)\<bar>"
    using assms(6) threshold_gt by simp
  then show ?thesis using assms(1) by (simp add: round_double_def Let_def b m r)
qed

lemma round_double_of_int: "\<bar>m\<bar> < 2 ^ 53 \<Longrightarrow> round_double (of_int m) = Num (of_int m)"
  using is_double_of_int[of m] by (simp add: is_double_def)

lemma is_double_numerals:
  "is_double 0" "is_double 1" "is_double 2" "is_double (- 1)"
  using is_double_of_int[of 0] is_double_of_int[of 1] is_double_of_int[of 2]
    is_double_of_int[of "- 1"]
  by simp_all


section \<open>Properties of the backoff delay\<close>

lemma default_backoff_fields:
  "baseDelay default_backoff = 5000" "backoffMultiplier default_backoff = 2"
  "maxDelay default_backoff = 300000" "jitterFactor default_backoff = round_double (1 / 10)"
  "maxAttempts default_backoff = 3"
  by (simp_all add: default_backoff_def backoff_config_of_def config_def empty_env_def or_default_def)

text \<open>The double that the literal \<open>0.1\<close> denotes.\<close>

lemma round_double_tenth:
  "round_double (1 / 10) = Num (3602879701896397 / 36028797018963968)"
proof -
  have "round_double (1 / 10) = Num (of_int 7205759403792794 * 2 powi (- 4 - 52))"
    by (rule round_double_nearest) simp_all
  then show ?thesis by simp
qed

text \<open>
  A tenth of each delay the default configuration can produce, as the double product
  \<open>delay * 0.1\<close> gives it: exactly the tenth, although \<open>0.1\<close> is not.
\<close>

lemma tenth_5000: "js_mul (Num 5000) (round_double (1 / 10)) = Num 500"
proof -
  have "round_double (5000 * (3602879701896397 / 36028797018963968))
      = Num (of_int 8796093022208000 * 2 powi (8 - 52))"
    by (rule round_double_nearest) simp_all
  then have "round_double (5000 * (3602879701896397 / 36028797018963968)) = Num 500" by simp
  then show ?thesis by (simp only: round_double_tenth js_mul.simps)
qed

lemma tenth_10000: "js_mul (Num 10000) (round_double (1 / 10)) = Num 1000"
proof -
  have "round_double (10000 * (3602879701896397 / 36028797018963968))
      = Num (of_int 8796093022208000 * 2 powi (9 - 52))"
    by (rule round_double_nearest) simp_all
  then have "round_double (10000 * (3602879701896397 / 36028797018963968)) = Num 1000" by simp
  then show ?thesis by (simp only: round_double_tenth js_mul.simps)
qed

lemma tenth_20000: "js_mul (Num 20000) (round_double (1 / 10)) = Num 2000"
proof -
  have "round_double (20000 * (3602879701896397 / 36028797018963968))
      = Num (of_int 8796093022208000 * 2 powi (10 - 52))"
    by (rule round_double_nearest) simp_all
  then have "round_double (20000 * (3602879701896397 / 36028797018963968)) = Num 2000" by simp
  then show ?thesis by (simp only: round_double_tenth js_mul.simps)
qed

lemma tenth_40000: "js_mul (Num 40000) (round_double (1 / 10)) = Num 4000"
proof -
  have "round_double (40000 * (3602879701896397 / 36028797018963968))
      = Num (of_int 8796093022208000 * 2 powi (11 - 52))"
    by (rule round_double_nearest) simp_all
  then have "round_double (40000 * (3602879701896397 / 36028797018963968)) = Num 4000" by simp
  then show ?thesis by (simp only: round_double_tenth js_mul.simps)
qed

lemma tenth_80000: "js_mul (Num 80000) (round_double (1 / 10)) = Num 8000"
proof -
  have "round_double (80000 * (3602879701896397 / 36028797018963968))
      = Num (of_int 8796093022208000 * 2 powi (12 - 52))"
    by (rule round_double_nearest) simp_all
  then have "round_double (80000 * (3602879701896397 / 36028797018963968)) = Num 8000" by simp
  then show ?thesis by (simp only: round_double_tenth js_mul.simps)
qed

lemma tenth_160000: "js_mul (Num 160000) (round_double (1 / 10)) = Num 16000"
proof -
  have "round_double (160000 * (3602879701896397 / 36028797018963968))
      = Num (of_int 8796093022208000 * 2 powi (13 - 52))"
    by (rule round_double_nearest) simp_all
  then have "round_double (160000 * (3602879701896397 / 36028797018963968)) = Num 16000" by simp
  then show ?thesis by (simp only: round_double_tenth js_mul.simps)
qed

lemma tenth_300000: "js_mul (Num 300000) (round_double (1 / 10)) = Num 30000"
proof -
  have "round_double (300000 * (3602879701896397 / 36028797018963968))
      = Num (of_int 8246337208320000 * 2 powi (14 - 52))"
    by (rule round_double_nearest) simp_all
  then have "round_double (300000 * (3602879701896397 / 36028797018963968)) = Num 30000" by simp
  then show ?thesis by (simp only: round_double_tenth js_mul.simps)
qed

lemma spec_delay_small: "a \<le> 5 \<Longrightarrow> spec_delay a = 5000 * 2 ^ a"
proof -
  assume "a \<le> 5"
  then have "(2::int) ^ a \<le> 2 ^ 5" by (rule power_increasing) simp
  then show ?thesis by (simp add: spec_delay_def)
qed

lemma spec_delay_capped: "6 \<le> a \<Longrightarrow> spec_delay a = 300000"
proof -
  assume "6 \<le> a"
  then have "(2::int) ^ 6 \<le> 2 ^ a" by (rule power_increasing) simp
  then show ?thesis by (simp add: spec_delay_def)
qed

lemma spec_delay_cases:
  "spec_delay a \<in> {5000, 10000, 20000, 40000, 80000, 160000, 300000}"
proof (cases "a \<le> 5")
  case True
  then have "a \<in> {0, 1, 2, 3, 4, 5}" by auto
  then show ?thesis using spec_delay_small[OF True] by auto
next
  case False
  then show ?thesis using spec_delay_capped[of a] by simp
qed





text \<open>The delay before jitter, as the code computes it, is the specified one.\<close>

lemma capped_default: "capped_delay default_backoff a = Num (of_int (spec_delay a))"
proof -
  have base: "js_of_int 5000 = Num 5000"
    using round_double_of_int[of 5000] by (simp add: js_of_int_def)
  have cap: "js_of_int 300000 = Num 300000"
    using round_double_of_int[of 300000] by (simp add: js_of_int_def)
  have unfold: "capped_delay default_backoff a
      = js_min (js_mul (Num 5000) (round_double (2 ^ a))) (Num 300000)"
    by (simp add: capped_delay_def default_backoff_fields base cap js_pow_def)
  show ?thesis
  proof (cases "a \<le> 5")
    case True
    then have p: "(2::int) ^ a \<le> 2 ^ 5" by (rule power_increasing) simp
    have "round_double (of_int (2 ^ a)) = Num (of_int (2 ^ a))"
      using p by (intro round_double_of_int) simp
    then have pw: "round_double (2 ^ a) = Num (2 ^ a)" by simp
    have "round_double (of_int (5000 * 2 ^ a)) = Num (of_int (5000 * 2 ^ a))"
      using p by (intro round_double_of_int) simp
    then have pr: "round_double (5000 * 2 ^ a) = Num (of_int (5000 * 2 ^ a))" by simp
    have "min (of_int (5000 * 2 ^ a)) (300000::rat) = of_int (min (5000 * 2 ^ a) 300000)"
      by (simp add: of_int_min)
    then show ?thesis by (simp add: unfold pw pr spec_delay_def)
  next
    case False
    then have a6: "6 \<le> a" by simp
    then have "(2::rat) ^ 6 \<le> 2 ^ a" by (rule power_increasing) simp
    then have p: "(64::rat) \<le> 2 ^ a" by simp
    have d64: "is_double 64" using is_double_of_int[of 64] by simp
    have d320: "is_double 320000" using is_double_of_int[of 320000] by simp
    have "js_min (js_mul (Num 5000) (round_double (2 ^ a))) (Num 300000) = Num 300000"
    proof -
      consider "round_double (2 ^ a) = PosInfinity"
        | y where "round_double (2 ^ a) = Num y" "64 \<le> y"
        using round_double_pos_lower[OF _ d64 p] by auto
      then show ?thesis
      proof cases
        case 1
        then show ?thesis by (simp add: infinity_times_def)
      next
        case 2
        have "(320000::rat) \<le> 5000 * y" using 2(2) by simp
        then consider "round_double (5000 * y) = PosInfinity"
          | z where "round_double (5000 * y) = Num z" "320000 \<le> z"
          using round_double_pos_lower[OF _ d320, of "5000 * y"] by auto
        then show ?thesis
        proof cases
          case 1
          then show ?thesis using 2(1) by simp
        next
          case 2
          then show ?thesis using \<open>round_double (2 ^ a) = Num y\<close> by (simp add: min_def)
        qed
      qed
    qed
    then show ?thesis by (simp add: unfold spec_delay_capped[OF a6])
  qed
qed

lemma tenth_default:
  "js_mul (Num (of_int (spec_delay a))) (jitterFactor default_backoff)
     = Num (of_int (spec_delay a div 10))"
  using spec_delay_cases[of a]
  by (auto simp: default_backoff_fields tenth_5000 tenth_10000 tenth_20000
      tenth_40000 tenth_80000 tenth_160000 tenth_300000)



lemma calculateDelay_unfold:
  "calculateDelay default_backoff a r =
     js_floor (js_add (Num (of_int (spec_delay a)))
       (js_mul (js_mul (Num (of_int (spec_delay a))) (jitterFactor default_backoff))
          (js_sub (js_mul (Num r) (Num 2)) (Num 1))))"
  by (simp add: calculateDelay_def Let_def capped_default)


lemma calculateDelay_half: "calculateDelay default_backoff a (1 / 2) = Num (of_int (spec_delay a))"
proof -
  have one: "round_double 1 = Num 1" and zero: "round_double 0 = Num 0"
    using is_double_numerals by (simp_all add: is_double_def)
  have d: "round_double (of_int (spec_delay a)) = Num (of_int (spec_delay a))"
    using spec_delay_cases[of a] by (intro round_double_of_int) auto
  show ?thesis
    by (simp add: calculateDelay_unfold tenth_default js_sub_def one zero d)
qed




text \<open>
  Two more draws next to an integer boundary, below the cap: in double arithmetic the sum
  \<open>delay + jitter\<close> rounds to the integer that exact arithmetic stays just below.
\<close>

lemma calculateDelay_rounds_up_attempt_1:
  "calculateDelay default_backoff 1 (3377699720527871 / 4503599627370496) = Num 10500"
proof -
  have "round_double (3377699720527871 / 4503599627370496 * 2)
      = Num (of_int 6755399441055742 * 2 powi (0 - 52))"
    by (rule round_double_nearest) simp_all
  then have a1: "round_double (3377699720527871 / 4503599627370496 * 2)
      = Num (3377699720527871 / 2251799813685248)" by simp
  have "round_double (3377699720527871 / 2251799813685248 - 1)
      = Num (of_int 9007199254740984 * 2 powi (- 2 - 52))"
    by (rule round_double_nearest) simp_all
  then have a2: "round_double (3377699720527871 / 2251799813685248 - 1)
      = Num (1125899906842623 / 2251799813685248)" by simp
  have "round_double (1000 * (1125899906842623 / 2251799813685248))
      = Num (of_int 8796093022207992 * 2 powi (8 - 52))"
    by (rule round_double_nearest) simp_all
  then have a3: "round_double (1000 * (1125899906842623 / 2251799813685248))
      = Num (1099511627775999 / 2199023255552)" by simp
  have "round_double (10000 + 1099511627775999 / 2199023255552)
      = Num (of_int 5772436045824000 * 2 powi (13 - 52))"
    by (rule round_double_nearest) simp_all
  then have a4: "round_double (10000 + 1099511627775999 / 2199023255552) = Num 10500" by simp
  have t: "js_sub (js_mul (Num (3377699720527871 / 4503599627370496)) (Num 2)) (Num 1)
      = Num (1125899906842623 / 2251799813685248)"
    unfolding js_mul.simps a1 js_sub_def js_neg.simps js_add.simps
    using a2 by simp
  have j: "js_mul (Num 1000) (Num (1125899906842623 / 2251799813685248))
      = Num (1099511627775999 / 2199023255552)"
    unfolding js_mul.simps by (rule a3)
  have y: "js_add (Num 10000) (Num (1099511627775999 / 2199023255552)) = Num 10500"
    unfolding js_add.simps by (rule a4)
  have d: "spec_delay 1 = 10000" by (simp add: spec_delay_def)
  have s: "js_mul (Num 10000) (jitterFactor default_backoff) = Num 1000"
    using tenth_default[of 1, unfolded d] by simp
  have "calculateDelay default_backoff 1 (3377699720527871 / 4503599627370496)
      = js_floor (js_add (Num 10000)
          (js_mul (js_mul (Num 10000) (jitterFactor default_backoff))
            (js_sub (js_mul (Num (3377699720527871 / 4503599627370496)) (Num 2)) (Num 1))))"
    unfolding calculateDelay_unfold d by simp
  also have "\<dots> = js_floor (Num 10500)" by (simp only: s t j y)
  finally show ?thesis by simp
qed

lemma calculateDelay_rounds_up_attempt_0:
  "calculateDelay default_backoff 0 (2251799813685247 / 4503599627370496) = Num 5000"
proof -
  have "round_double (2251799813685247 / 4503599627370496 * 2)
      = Num (of_int 9007199254740988 * 2 powi (- 1 - 52))"
    by (rule round_double_nearest) simp_all
  then have a1: "round_double (2251799813685247 / 4503599627370496 * 2)
      = Num (2251799813685247 / 2251799813685248)" by simp
  have "round_double (1 / 2251799813685248)
      = Num (of_int 4503599627370496 * 2 powi (- 51 - 52))"
    by (rule round_double_nearest) simp_all
  then have p2: "round_double (1 / 2251799813685248) = Num (1 / 2251799813685248)" by simp
  have a2: "round_double (2251799813685247 / 2251799813685248 - 1)
      = Num (- (1 / 2251799813685248))"
    using round_double_minus[of "1 / 2251799813685248"] by (simp add: p2)
  have "round_double (125 / 562949953421312)
      = Num (of_int 8796093022208000 * 2 powi (- 43 - 52))"
    by (rule round_double_nearest) simp_all
  then have p3: "round_double (125 / 562949953421312) = Num (125 / 562949953421312)" by simp
  have a3: "round_double (500 * - (1 / 2251799813685248)) = Num (- (125 / 562949953421312))"
    using round_double_minus[of "125 / 562949953421312"] by (simp add: p3)
  have "round_double (5000 + - (125 / 562949953421312))
      = Num (of_int 5497558138880000 * 2 powi (12 - 52))"
    by (rule round_double_nearest) simp_all
  then have a4: "round_double (5000 + - (125 / 562949953421312)) = Num 5000" by simp
  have t: "js_sub (js_mul (Num (2251799813685247 / 4503599627370496)) (Num 2)) (Num 1)
      = Num (- (1 / 2251799813685248))"
    unfolding js_mul.simps a1 js_sub_def js_neg.simps js_add.simps
    using a2 by simp
  have j: "js_mul (Num 500) (Num (- (1 / 2251799813685248)))
      = Num (- (125 / 562949953421312))"
    unfolding js_mul.simps by (rule a3)
  have y: "js_add (Num 5000) (Num (- (125 / 562949953421312))) = Num 5000"
    unfolding js_add.simps by (rule a4)
  have d: "spec_delay 0 = 5000" by (simp add: spec_delay_def)
  have s: "js_mul (Num 5000) (jitterFactor default_backoff) = Num 500"
    using tenth_default[of 0, unfolded d] by simp
  have "calculateDelay default_backoff 0 (2251799813685247 / 4503599627370496)
      = js_floor (js_add (Num 5000)
          (js_mul (js_mul (Num 5000) (jitterFactor default_backoff))
            (js_sub (js_mul (Num (2251799813685247 / 4503599627370496)) (Num 2)) (Num 1))))"
    unfolding calculateDelay_unfold d by simp
  also have "\<dots> = js_floor (Num 5000)" by (simp only: s t j y)
  finally show ?thesis by simp
qed




section \<open>Properties of the reconnection manager\<close>

lemma canReconnect_iff:
  "canReconnect rm now num =
     (int (getAttempts rm num) < maxAttempts (rconfig rm)
      \<and> (case lastReconnectTime rm num of None \<Rightarrow> True
         | Some t \<Rightarrow> t = 0 \<or> 2000 \<le> now - t))"
  by (auto simp: canReconnect_def Let_def split: option.splits)

lemma clearTimer_fields [simp]:
  "reconnectAttempts (clearTimer rm num) = reconnectAttempts rm"
  "lastReconnectTime (clearTimer rm num) = lastReconnectTime rm"
  "rconfig (clearTimer rm num) = rconfig rm"
  "reconnectTimers (clearTimer rm num) = (reconnectTimers rm)(num := None)"
  by (auto simp: clearTimer_def split: option.splits)

lemma scheduleReconnection_refused:
  "\<not> canReconnect rm now num \<Longrightarrow> scheduleReconnection rm now r num = (None, rm)"
  by (simp add: scheduleReconnection_def)

lemma scheduleReconnection_accepted:
  "canReconnect rm now num \<Longrightarrow>
   scheduleReconnection rm now r num =
     (Some (getAttempts rm num + 1, calculateDelay (rconfig rm) (getAttempts rm num + 1) r),
      rm\<lparr>reconnectAttempts := (reconnectAttempts rm)(num \<mapsto> getAttempts rm num + 1),
         reconnectTimers := (reconnectTimers rm)(num \<mapsto>
           \<lparr>armed_at = now,
            timer_delay = calculateDelay (rconfig rm) (getAttempts rm num + 1) r\<rparr>)\<rparr>)"
  by (simp add: scheduleReconnection_def incrementAttempts_def Let_def)

lemma scheduleReconnection_fields [simp]:
  "lastReconnectTime (snd (scheduleReconnection rm now r num)) = lastReconnectTime rm"
  "rconfig (snd (scheduleReconnection rm now r num)) = rconfig rm"
  by (cases "canReconnect rm now num";
      simp add: scheduleReconnection_refused scheduleReconnection_accepted)+

lemma getAttempts_scheduleReconnection:
  "getAttempts (snd (scheduleReconnection rm now r num)) n =
     (if n = num \<and> canReconnect rm now num then getAttempts rm num + 1 else getAttempts rm n)"
  by (cases "canReconnect rm now num")
     (simp_all add: scheduleReconnection_refused scheduleReconnection_accepted getAttempts_def)

lemma resetAttempts_fields [simp]:
  "reconnectAttempts (resetAttempts rm num) = (reconnectAttempts rm)(num := None)"
  "lastReconnectTime (resetAttempts rm num) = (lastReconnectTime rm)(num := None)"
  "rconfig (resetAttempts rm num) = rconfig rm"
  by (simp_all add: resetAttempts_def Let_def)

lemma cleanup_fields [simp]:
  "reconnectAttempts (cleanup rm num) = (reconnectAttempts rm)(num := None)"
  "lastReconnectTime (cleanup rm num) = (lastReconnectTime rm)(num := None)"
  "rconfig (cleanup rm num) = rconfig rm"
  by (simp_all add: cleanup_def Let_def)

lemma getAttempts_clearTimer [simp]: "getAttempts (clearTimer rm num) n = getAttempts rm n"
  by (simp add: getAttempts_def)

lemma getAttempts_lastReconnectTime_update [simp]:
  "getAttempts (rm\<lparr>lastReconnectTime := l\<rparr>) n = getAttempts rm n"
  by (simp add: getAttempts_def)

lemma getAttempts_resetAttempts:
  "getAttempts (resetAttempts rm num) n = (if n = num then 0 else getAttempts rm n)"
  by (simp add: getAttempts_def)

lemma getAttempts_cleanup:
  "getAttempts (cleanup rm num) n = (if n = num then 0 else getAttempts rm n)"
  by (simp add: getAttempts_def)

lemma timer_fired_rejected:
  "timer_fired rm fired Rejected settled r num =
     snd (scheduleReconnection (rm\<lparr>lastReconnectTime := (lastReconnectTime rm)(num \<mapsto> fired)\<rparr>)
            settled r num)"
  by (simp add: timer_fired_def Let_def scheduleReconnection_refused)

lemma timer_fired_nullish:
  "timer_fired rm fired RejectedNullish settled r num =
     rm\<lparr>lastReconnectTime := (lastReconnectTime rm)(num \<mapsto> fired)\<rparr>"
  by (simp add: timer_fired_def Let_def)

lemma timer_fired_resolved:
  "timer_fired rm fired Resolved settled r num =
     resetAttempts (rm\<lparr>lastReconnectTime := (lastReconnectTime rm)(num \<mapsto> fired)\<rparr>) num"
  by (simp add: timer_fired_def Let_def)

lemma rconfig_apply_rm_op [simp]: "rconfig (apply_rm_op rm op) = rconfig rm"
  by (cases op) (simp_all add: timer_fired_def Let_def split: callback_outcome.splits)

lemma rconfig_foldl [simp]: "rconfig (foldl apply_rm_op rm ops) = rconfig rm"
  by (induction ops arbitrary: rm) simp_all

text \<open>
  Once the counter of a client has reached the maximum, no operation other than the ones
  that delete the counter brings it below the maximum again.
\<close>

lemma exhausted_step:
  assumes "maxAttempts (rconfig rm) \<le> int (getAttempts rm num)" "\<not> resets_attempts num op"
  shows "maxAttempts (rconfig rm) \<le> int (getAttempts (apply_rm_op rm op) num)"
proof (cases op)
  case (Schedule now r n)
  then show ?thesis using assms
    by (auto simp: getAttempts_scheduleReconnection)
next
  case (ClearTimer n)
  then show ?thesis using assms by simp
next
  case (TimerFired fired outcome settled r n)
  show ?thesis
  proof (cases outcome)
    case Resolved
    then have "n \<noteq> num" using assms(2) TimerFired by simp
    then show ?thesis using assms(1) TimerFired Resolved
      by (simp add: timer_fired_resolved getAttempts_resetAttempts)
  next
    case Rejected
    then show ?thesis using assms(1) TimerFired
      by (auto simp: timer_fired_rejected getAttempts_scheduleReconnection)
  next
    case RejectedNullish
    then show ?thesis using assms(1) TimerFired
      by (simp add: timer_fired_nullish)
  qed
next
  case (ResetAttempts n)
  then show ?thesis using assms by (simp add: getAttempts_resetAttempts)
next
  case (Cleanup n)
  then show ?thesis using assms by (simp add: getAttempts_cleanup)
qed

lemma exhausted_foldl:
  "maxAttempts (rconfig rm) \<le> int (getAttempts rm num) \<Longrightarrow>
   \<forall>op \<in> set ops. \<not> resets_attempts num op \<Longrightarrow>
   maxAttempts (rconfig rm) \<le> int (getAttempts (foldl apply_rm_op rm ops) num)"
proof (induction ops arbitrary: rm)
  case Nil
  then show ?case by simp
next
  case (Cons op ops)
  have "maxAttempts (rconfig (apply_rm_op rm op)) \<le> int (getAttempts (apply_rm_op rm op) num)"
    using exhausted_step[of rm num op] Cons.prems by simp
  then have "maxAttempts (rconfig (apply_rm_op rm op))
      \<le> int (getAttempts (foldl apply_rm_op (apply_rm_op rm op) ops) num)"
    using Cons.prems(2) by (intro Cons.IH) simp_all
  then show ?case by simp
qed

lemma exhausted_refused:
  "maxAttempts (rconfig rm) \<le> int (getAttempts rm num) \<Longrightarrow> \<not> canReconnect rm now num"
  by (simp add: canReconnect_iff)

lemma resetAttempts_canReconnect:
  "0 < maxAttempts (rconfig rm) \<Longrightarrow> canReconnect (resetAttempts rm num) now num"
  by (simp add: canReconnect_iff getAttempts_resetAttempts)

lemma scheduleReconnection_null_iff:
  "fst (scheduleReconnection rm now r num) = None \<longleftrightarrow> \<not> canReconnect rm now num"
  by (cases "canReconnect rm now num")
     (simp_all add: scheduleReconnection_refused scheduleReconnection_accepted)

text \<open>
  Two schedulings in a row for a client with no attempts and no recorded time, at any
  two clock values: attempts 1 and 2.
\<close>

lemma first_two_schedulings:
  assumes "getAttempts rm num = 0" "lastReconnectTime rm num = None"
    "1 < maxAttempts (rconfig rm)"
  shows "fst (scheduleReconnection rm now r num) = Some (1, calculateDelay (rconfig rm) 1 r)
    \<and> fst (scheduleReconnection (snd (scheduleReconnection rm now r num)) now' r' num)
          = Some (2, calculateDelay (rconfig rm) 2 r')"
proof -
  have c1: "canReconnect rm now num" using assms by (simp add: canReconnect_iff)
  have s1: "fst (scheduleReconnection rm now r num) = Some (1, calculateDelay (rconfig rm) 1 r)"
    using assms(1) by (simp add: scheduleReconnection_accepted[OF c1])
  have att: "getAttempts (snd (scheduleReconnection rm now r num)) num = 1"
    using c1 assms(1) by (simp add: getAttempts_scheduleReconnection)
  have c2: "canReconnect (snd (scheduleReconnection rm now r num)) now' num"
    using assms att by (simp add: canReconnect_iff)
  have s2: "fst (scheduleReconnection (snd (scheduleReconnection rm now r num)) now' r' num)
          = Some (2, calculateDelay (rconfig rm) 2 r')"
    using att by (simp add: scheduleReconnection_accepted[OF c2] numeral_2_eq_2)
  from s1 s2 show ?thesis by (rule conjI)
qed

text \<open>A fresh manager with the default configuration, and its first delays at the draw 1/2.\<close>

lemma fresh_manager:
  "rconfig (new_reconnection_manager (config empty_env)) = default_backoff"
  "getAttempts (new_reconnection_manager (config empty_env)) num = 0"
  "lastReconnectTime (new_reconnection_manager (config empty_env)) num = None"
  by (simp_all add: new_reconnection_manager_def default_backoff_def getAttempts_def)

lemma default_delays_at_half:
  "calculateDelay default_backoff 1 (1 / 2) = Num 10000"
  "calculateDelay default_backoff 2 (1 / 2) = Num 20000"
  "calculateDelay default_backoff (Suc 0) (1 / 2) = Num 10000"
  using calculateDelay_half[of 1] calculateDelay_half[of 2] by (simp_all add: spec_delay_def)

text \<open>
  C1, as the code has it. \<open>scheduleReconnection\<close> returns \<open>null\<close> exactly when the
  attempt counter has reached the maximum or the call comes less than 2000 ms after the
  recorded \<open>lastReconnectTime\<close> of the client (a recorded time of 0 is ignored).
  Scheduling does not record that time; the timer callback does, when it fires (here for
  a callback that fails, in either way). So for a client with no attempts and no recorded
  time the first call returns attempt 1 with its delay, and a second call at any time
  before the timer fires returns attempt 2 (when the maximum is above 1) instead of
  \<open>null\<close>.
\<close>

theorem scheduleReconnection_spacing:
  "(fst (scheduleReconnection rm now r num) = None \<longleftrightarrow>
      (maxAttempts (rconfig rm) \<le> int (getAttempts rm num)
       \<or> (\<exists>t. lastReconnectTime rm num = Some t \<and> t \<noteq> 0 \<and> now - t < 2000)))
   \<and> lastReconnectTime (snd (scheduleReconnection rm now r num)) = lastReconnectTime rm
   \<and> lastReconnectTime (timer_fired rm fired Rejected settled r num) num = Some fired
   \<and> lastReconnectTime (timer_fired rm fired RejectedNullish settled r num) num = Some fired
   \<and> (getAttempts rm' num = 0 \<and> lastReconnectTime rm' num = None
        \<and> 1 < maxAttempts (rconfig rm') \<longrightarrow>
      fst (scheduleReconnection rm' now r num) = Some (1, calculateDelay (rconfig rm') 1 r)
      \<and> fst (scheduleReconnection (snd (scheduleReconnection rm' now r num)) now' r' num)
          = Some (2, calculateDelay (rconfig rm') 2 r'))"
proof -
  have a: "fst (scheduleReconnection rm now r num) = None \<longleftrightarrow>
      (maxAttempts (rconfig rm) \<le> int (getAttempts rm num)
       \<or> (\<exists>t. lastReconnectTime rm num = Some t \<and> t \<noteq> 0 \<and> now - t < 2000))"
    unfolding scheduleReconnection_null_iff canReconnect_iff
    by (auto split: option.splits)
  have c: "lastReconnectTime (timer_fired rm fired Rejected settled r num) num = Some fired"
    by (simp add: timer_fired_rejected)
  have c': "lastReconnectTime (timer_fired rm fired RejectedNullish settled r num) num = Some fired"
    by (simp add: timer_fired_nullish)
  show ?thesis
    using a c c' first_two_schedulings[of rm' num now r now' r'] by simp
qed

theorem scheduleReconnection_spacing_witness:
  "getAttempts (new_reconnection_manager (config empty_env)) ''c1'' = 0
   \<and> lastReconnectTime (new_reconnection_manager (config empty_env)) ''c1'' = None
   \<and> 1 < maxAttempts (rconfig (new_reconnection_manager (config empty_env)))
   \<and> fst (scheduleReconnection (new_reconnection_manager (config empty_env)) 1000 (1 / 2) ''c1'')
        = Some (1, Num 10000)
   \<and> lastReconnectTime
        (timer_fired (new_reconnection_manager (config empty_env)) 11000 Rejected 11500 (1 / 2)
           ''c1'')
        ''c1'' = Some 11000"
proof -
  have h: "getAttempts (new_reconnection_manager (config empty_env)) ''c1'' = 0
     \<and> lastReconnectTime (new_reconnection_manager (config empty_env)) ''c1'' = None
     \<and> 1 < maxAttempts (rconfig (new_reconnection_manager (config empty_env)))"
    by (simp add: fresh_manager default_backoff_fields)
  show ?thesis
    using scheduleReconnection_spacing[of "new_reconnection_manager (config empty_env)"
        1000 "1 / 2" "''c1''" 11000 11500 "new_reconnection_manager (config empty_env)" 1500 "1 / 2"]
      h default_delays_at_half(1)
    by (simp add: fresh_manager(1))
qed

text \<open>
  The claim as stated fails: on a fresh manager with the default configuration, a second
  call 500 ms after the first returns attempt 2 with delay 20000, not \<open>null\<close>.
\<close>

theorem scheduleReconnection_twice_within_2s:
  "fst (scheduleReconnection (new_reconnection_manager (config empty_env)) 1000 (1 / 2) ''c1'')
     = Some (1, Num 10000)
   \<and> fst (scheduleReconnection
        (snd (scheduleReconnection (new_reconnection_manager (config empty_env)) 1000 (1 / 2) ''c1''))
        1500 (1 / 2) ''c1'') = Some (2, Num 20000)"
proof -
  have m: "1 < maxAttempts (rconfig (new_reconnection_manager (config empty_env)))"
    by (simp add: fresh_manager default_backoff_fields)
  show ?thesis
    using first_two_schedulings[of "new_reconnection_manager (config empty_env)" "''c1''"
        1000 "1 / 2" 1500 "1 / 2"] m
    by (simp add: fresh_manager default_delays_at_half)
qed

text \<open>
  C4, as the code has it. Take a client whose attempt counter has reached
  \<open>maxAttempts\<close>, and run any operations of the manager (for any clients) among which
  none deletes this client's counter, that is no \<open>resetAttempts\<close> (called directly or by
  the timer callback after a successful recovery) and no \<open>cleanup\<close> for it. Then
  \<open>scheduleReconnection\<close> still returns \<open>null\<close>, changing nothing, and
  \<open>getStatus(id).canReconnect\<close> is still false. After \<open>resetAttempts\<close>, with a positive
  \<open>maxAttempts\<close>, \<open>canReconnect\<close> is true and scheduling returns attempt 1. With the
  repository's \<open>config.js\<close> and no environment override \<open>maxAttempts\<close> is 3.
\<close>

theorem maxAttempts_exhaustion:
  assumes "maxAttempts (rconfig rm) \<le> int (getAttempts rm num)"
    and "\<forall>op \<in> set ops. \<not> resets_attempts num op"
  shows "scheduleReconnection (foldl apply_rm_op rm ops) now r num
           = (None, foldl apply_rm_op rm ops)
     \<and> \<not> status_canReconnect (getStatus (foldl apply_rm_op rm ops) now num)
     \<and> (0 < maxAttempts (rconfig rm) \<longrightarrow>
          status_canReconnect (getStatus (resetAttempts (foldl apply_rm_op rm ops) num) now' num)
          \<and> fst (scheduleReconnection (resetAttempts (foldl apply_rm_op rm ops) num) now' r' num)
              = Some (1, calculateDelay (rconfig rm) 1 r'))
     \<and> maxAttempts (rconfig (new_reconnection_manager (config empty_env))) = 3"
proof -
  define rm' where "rm' = foldl apply_rm_op rm ops"
  have ex: "maxAttempts (rconfig rm') \<le> int (getAttempts rm' num)"
    unfolding rm'_def using exhausted_foldl[OF assms(1,2)] by simp
  have no: "\<not> canReconnect rm' now num" using ex by (rule exhausted_refused)
  have cfg: "rconfig rm' = rconfig rm" by (simp add: rm'_def)
  have after: "status_canReconnect (getStatus (resetAttempts rm' num) now' num)
          \<and> fst (scheduleReconnection (resetAttempts rm' num) now' r' num)
              = Some (1, calculateDelay (rconfig rm) 1 r')"
    if pos: "0 < maxAttempts (rconfig rm)"
  proof -
    have pos': "0 < maxAttempts (rconfig rm')" using pos by (simp only: cfg)
    have yes: "canReconnect (resetAttempts rm' num) now' num"
      using pos' by (rule resetAttempts_canReconnect)
    have "fst (scheduleReconnection (resetAttempts rm' num) now' r' num)
          = Some (1, calculateDelay (rconfig rm') 1 r')"
      by (simp add: scheduleReconnection_accepted[OF yes] getAttempts_resetAttempts)
    then have "fst (scheduleReconnection (resetAttempts rm' num) now' r' num)
          = Some (1, calculateDelay (rconfig rm) 1 r')"
      by (simp only: cfg)
    with yes show ?thesis by (simp add: getStatus_def)
  qed
  have dflt: "maxAttempts (rconfig (new_reconnection_manager (config empty_env))) = 3"
    by (simp add: fresh_manager default_backoff_fields)
  have "scheduleReconnection rm' now r num = (None, rm')
     \<and> \<not> status_canReconnect (getStatus rm' now num)
     \<and> (0 < maxAttempts (rconfig rm) \<longrightarrow>
          status_canReconnect (getStatus (resetAttempts rm' num) now' num)
          \<and> fst (scheduleReconnection (resetAttempts rm' num) now' r' num)
              = Some (1, calculateDelay (rconfig rm) 1 r'))
     \<and> maxAttempts (rconfig (new_reconnection_manager (config empty_env))) = 3"
    using no after dflt scheduleReconnection_refused[OF no, of r]
    by (simp add: getStatus_def)
  then show ?thesis unfolding rm'_def .
qed

theorem maxAttempts_exhaustion_witness:
  "maxAttempts (rconfig ((new_reconnection_manager (config empty_env))
      \<lparr>reconnectAttempts := [''c1'' \<mapsto> 3]\<rparr>))
     \<le> int (getAttempts ((new_reconnection_manager (config empty_env))
      \<lparr>reconnectAttempts := [''c1'' \<mapsto> 3]\<rparr>) ''c1'')
   \<and> 0 < maxAttempts (rconfig ((new_reconnection_manager (config empty_env))
      \<lparr>reconnectAttempts := [''c1'' \<mapsto> 3]\<rparr>))
   \<and> fst (scheduleReconnection
        (foldl apply_rm_op
           ((new_reconnection_manager (config empty_env))\<lparr>reconnectAttempts := [''c1'' \<mapsto> 3]\<rparr>)
           [Schedule 5000 (1 / 2) ''c1'', TimerFired 9000 Rejected 12000 (1 / 2) ''c1'',
            TimerFired 13000 RejectedNullish 13500 (1 / 2) ''c1'',
            ClearTimer ''c1'', ResetAttempts ''c2''])
        20000 (1 / 2) ''c1'') = None
   \<and> fst (scheduleReconnection
        (resetAttempts
          (foldl apply_rm_op
             ((new_reconnection_manager (config empty_env))\<lparr>reconnectAttempts := [''c1'' \<mapsto> 3]\<rparr>)
             [Schedule 5000 (1 / 2) ''c1'', TimerFired 9000 Rejected 12000 (1 / 2) ''c1'',
              TimerFired 13000 RejectedNullish 13500 (1 / 2) ''c1'',
              ClearTimer ''c1'', ResetAttempts ''c2''])
          ''c1'')
        20000 (1 / 2) ''c1'') = Some (1, Num 10000)"
proof -
  let ?rm = "(new_reconnection_manager (config empty_env))\<lparr>reconnectAttempts := [''c1'' \<mapsto> 3]\<rparr>"
  let ?ops = "[Schedule 5000 (1 / 2) ''c1'', TimerFired 9000 Rejected 12000 (1 / 2) ''c1'',
            TimerFired 13000 RejectedNullish 13500 (1 / 2) ''c1'',
            ClearTimer ''c1'', ResetAttempts ''c2'']"
  have cfg: "rconfig ?rm = default_backoff"
    by (simp add: new_reconnection_manager_def default_backoff_def)
  have h1: "maxAttempts (rconfig ?rm) \<le> int (getAttempts ?rm ''c1'')"
    by (simp add: cfg default_backoff_fields) (simp add: getAttempts_def)
  have h2: "\<forall>op \<in> set ?ops. \<not> resets_attempts ''c1'' op" by simp
  have h3: "0 < maxAttempts (rconfig ?rm)" by (simp add: cfg default_backoff_fields)
  show ?thesis
    using maxAttempts_exhaustion[OF h1 h2, of 20000 "1 / 2" 20000 "1 / 2"] h1 h3
      default_delays_at_half(1)
    by (simp add: cfg)
qed

text \<open>
  The claim as stated fails on the default: with no environment override, three
  schedulings exhaust a client. The fourth returns \<open>null\<close> and the status reports
  \<open>canReconnect = false\<close> with 3 attempts of at most 3, well before 10.
\<close>

lemma getAttempts_schedule_untimed:
  "lastReconnectTime rm num = None \<Longrightarrow>
   getAttempts (snd (scheduleReconnection rm now r num)) num
     = (if int (getAttempts rm num) < maxAttempts (rconfig rm) then getAttempts rm num + 1
        else getAttempts rm num)"
  by (simp add: getAttempts_scheduleReconnection canReconnect_iff)

theorem default_maxAttempts_is_3:
  "getAttempts
     (foldl apply_rm_op (new_reconnection_manager (config empty_env))
        [Schedule 0 (1 / 2) ''c1'', Schedule 1 (1 / 2) ''c1'', Schedule 2 (1 / 2) ''c1''])
     ''c1'' = 3
   \<and> fst (scheduleReconnection
        (foldl apply_rm_op (new_reconnection_manager (config empty_env))
           [Schedule 0 (1 / 2) ''c1'', Schedule 1 (1 / 2) ''c1'', Schedule 2 (1 / 2) ''c1''])
        3 (1 / 2) ''c1'') = None
   \<and> \<not> status_canReconnect (getStatus
        (foldl apply_rm_op (new_reconnection_manager (config empty_env))
           [Schedule 0 (1 / 2) ''c1'', Schedule 1 (1 / 2) ''c1'', Schedule 2 (1 / 2) ''c1''])
        3 ''c1'')
   \<and> status_maxAttempts (getStatus
        (foldl apply_rm_op (new_reconnection_manager (config empty_env))
           [Schedule 0 (1 / 2) ''c1'', Schedule 1 (1 / 2) ''c1'', Schedule 2 (1 / 2) ''c1''])
        3 ''c1'') = 3"
proof -
  let ?rm0 = "new_reconnection_manager (config empty_env)"
  let ?rm3 = "foldl apply_rm_op ?rm0
        [Schedule 0 (1 / 2) ''c1'', Schedule 1 (1 / 2) ''c1'', Schedule 2 (1 / 2) ''c1'']"
  have att: "getAttempts ?rm3 ''c1'' = 3"
    by (simp add: getAttempts_schedule_untimed fresh_manager default_backoff_fields)
  have cfg: "rconfig ?rm3 = default_backoff" by (simp add: fresh_manager)
  have "maxAttempts (rconfig ?rm3) \<le> int (getAttempts ?rm3 ''c1'')"
    unfolding att cfg by (simp add: default_backoff_fields)
  then have no: "\<not> canReconnect ?rm3 3 ''c1''"
    by (rule exhausted_refused)
  show ?thesis
    using att no scheduleReconnection_refused[OF no, of "1 / 2"]
    by (simp add: getStatus_def fresh_manager default_backoff_fields)
qed


section \<open>Properties of the media queue\<close>

lemma queue_has_iff: "queue_has mq mid \<longleftrightarrow> mid \<in> fst ` set (queue mq)"
  by (simp add: queue_has_def map_of_eq_None_iff)

lemma enqueue_completed:
  "completed mq mid = Some d \<Longrightarrow> enqueue mq now mid msg cid prio = (StatusCompleted d, mq)"
  by (simp add: enqueue_def)

lemma enqueue_in_flight:
  "completed mq mid = None \<Longrightarrow> queue_has mq mid \<or> mid \<in> processing mq \<Longrightarrow>
   enqueue mq now mid msg cid prio = (StatusProcessing, mq)"
  by (simp add: enqueue_def)

lemma enqueue_new:
  "completed mq mid = None \<Longrightarrow> \<not> queue_has mq mid \<Longrightarrow> mid \<notin> processing mq \<Longrightarrow>
   enqueue mq now mid msg cid prio =
     (StatusEnqueued,
      mq\<lparr>queue := AList.update mid
              \<lparr>messageId = mid, job_message = msg, clientId = cid, priority = prio,
               attempts = 0, enqueuedAt = now, job_type = msg_type msg\<rparr> (queue mq),
         emitted := emitted mq @ [JobEnqueued mid]\<rparr>)"
  by (simp add: enqueue_def Let_def)

text \<open>After any \<open>enqueue\<close> of a message id, the id is known to the queue.\<close>

lemma enqueue_known:
  "completed (snd (enqueue mq now mid msg cid prio)) mid \<noteq> None
   \<or> queue_has (snd (enqueue mq now mid msg cid prio)) mid
   \<or> mid \<in> processing (snd (enqueue mq now mid msg cid prio))"
  by (auto simp: enqueue_def Let_def queue_has_def update_conv' split: option.splits)

lemma enqueue_again_unchanged:
  "snd (enqueue (snd (enqueue mq now mid msg cid prio)) now' mid msg' cid' prio')
     = snd (enqueue mq now mid msg cid prio)"
proof -
  let ?mq = "snd (enqueue mq now mid msg cid prio)"
  show ?thesis
  proof (cases "completed ?mq mid")
    case (Some d)
    then show ?thesis by (simp add: enqueue_completed)
  next
    case None
    then have "queue_has ?mq mid \<or> mid \<in> processing ?mq"
      using enqueue_known[of mq now mid msg cid prio] by simp
    with None show ?thesis by (simp add: enqueue_in_flight)
  qed
qed

lemma enqueue_never_queued: "fst (enqueue mq now mid msg cid prio) \<noteq> StatusQueued p t"
  by (simp add: enqueue_def Let_def split: option.splits)

text \<open>
  C5. Re-enqueuing a message id that is completed returns \<open>completed\<close> with the cached
  entry; re-enqueuing one that is queued or processing returns \<open>processing\<close>, the answer
  \<open>enqueue\<close> gives for every job in flight. Either way the queue, the processing set, the
  completed map and the emitted events are unchanged, whatever message, client and
  priority the call passes: no duplicate job is created and no work is restarted. In
  particular a second \<open>enqueue\<close> of the same id right after a first one changes nothing.
\<close>

theorem enqueue_idempotent:
  "(completed mq mid = Some d \<longrightarrow>
      enqueue mq now mid msg cid prio = (StatusCompleted d, mq))
   \<and> (completed mq mid = None \<and> (queue_has mq mid \<or> mid \<in> processing mq) \<longrightarrow>
      enqueue mq now mid msg cid prio = (StatusProcessing, mq))
   \<and> fst (enqueue mq now mid msg cid prio) \<noteq> StatusQueued p t
   \<and> snd (enqueue (snd (enqueue mq now mid msg cid prio)) now' mid msg' cid' prio')
        = snd (enqueue mq now mid msg cid prio)"
  using enqueue_completed[of mq mid d now msg cid prio]
    enqueue_in_flight[of mq mid now msg cid prio]
    enqueue_never_queued[of mq now mid msg cid prio p t]
    enqueue_again_unchanged[of mq now mid msg cid prio now' msg' cid' prio']
  by blast

theorem enqueue_idempotent_witness:
  "completed
     (snd (enqueue (new_media_queue :: (unit, unit) media_queue)
        1000 ''m1'' \<lparr>msg_type = ''image'', msg_payload = ()\<rparr> ''c1'' 0)) ''m1'' = None
   \<and> queue_has
     (snd (enqueue (new_media_queue :: (unit, unit) media_queue)
        1000 ''m1'' \<lparr>msg_type = ''image'', msg_payload = ()\<rparr> ''c1'' 0)) ''m1''
   \<and> enqueue
     (snd (enqueue (new_media_queue :: (unit, unit) media_queue)
        1000 ''m1'' \<lparr>msg_type = ''image'', msg_payload = ()\<rparr> ''c1'' 0))
     1005 ''m1'' \<lparr>msg_type = ''image'', msg_payload = ()\<rparr> ''c1'' 2
     = (StatusProcessing,
        snd (enqueue (new_media_queue :: (unit, unit) media_queue)
          1000 ''m1'' \<lparr>msg_type = ''image'', msg_payload = ()\<rparr> ''c1'' 0))
   \<and> enqueue
     ((new_media_queue :: (unit, unit) media_queue)\<lparr>completed := [''m0'' \<mapsto> MediaData () 900 0]\<rparr>)
     1005 ''m0'' \<lparr>msg_type = ''image'', msg_payload = ()\<rparr> ''c1'' 2
     = (StatusCompleted (MediaData () 900 0),
        (new_media_queue :: (unit, unit) media_queue)\<lparr>completed := [''m0'' \<mapsto> MediaData () 900 0]\<rparr>)"
proof -
  let ?mq = "snd (enqueue (new_media_queue :: (unit, unit) media_queue)
        1000 ''m1'' \<lparr>msg_type = ''image'', msg_payload = ()\<rparr> ''c1'' 0)"
  let ?mc = "(new_media_queue :: (unit, unit) media_queue)\<lparr>completed := [''m0'' \<mapsto> MediaData () 900 0]\<rparr>"
  have h1: "completed ?mq ''m1'' = None" "queue_has ?mq ''m1''"
    by (simp_all add: enqueue_def new_media_queue_def queue_has_def Let_def)
  have h2: "completed ?mc ''m0'' = Some (MediaData () 900 0)" by simp
  show ?thesis
    using enqueue_idempotent[of ?mq "''m1''" "MediaData () 0 0" 1005
        "\<lparr>msg_type = ''image'', msg_payload = ()\<rparr>" "''c1''" 2]
      enqueue_idempotent[of ?mc "''m0''" "MediaData () 900 0" 1005
        "\<lparr>msg_type = ''image'', msg_payload = ()\<rparr>" "''c1''" 2]
      h1 h2
    by simp
qed

lemma length_insert_sorted: "length (insert_sorted cmp x ys) = Suc (length ys)"
  by (induction ys) simp_all

lemma length_js_sort: "length (js_sort cmp xs) = length xs"
  by (induction xs) (simp_all add: length_insert_sorted)

lemma set_insert_sorted: "set (insert_sorted cmp x ys) = insert x (set ys)"
  by (induction ys) auto

lemma set_js_sort: "set (js_sort cmp xs) = set xs"
  by (induction xs) (simp_all add: set_insert_sorted)

text \<open>The order the comparator stands for: \<open>compareJobs a b \<le> 0\<close>.\<close>

lemma compareJobs_le:
  "compareJobs a b \<le> 0 \<longleftrightarrow>
     priority a < priority b \<or> (priority a = priority b \<and> enqueuedAt a \<le> enqueuedAt b)"
  by (auto simp: compareJobs_def)

lemma compareJobs_total: "compareJobs a b \<le> 0 \<or> compareJobs b a \<le> 0"
  by (auto simp: compareJobs_def)

lemma compareJobs_trans:
  "compareJobs a b \<le> 0 \<Longrightarrow> compareJobs b c \<le> 0 \<Longrightarrow> compareJobs a c \<le> 0"
  unfolding compareJobs_le by auto

lemma sorted_insert_sorted:
  "sorted_wrt (\<lambda>a b. compareJobs a b \<le> 0) ys \<Longrightarrow>
   sorted_wrt (\<lambda>a b. compareJobs a b \<le> 0) (insert_sorted compareJobs x ys)"
proof (induction ys)
  case Nil
  then show ?case by simp
next
  case (Cons y ys)
  show ?case
  proof (cases "compareJobs x y \<le> 0")
    case True
    then have "\<forall>z \<in> set ys. compareJobs x z \<le> 0"
      using Cons.prems compareJobs_trans[of x y] by auto
    with True Cons.prems show ?thesis by simp
  next
    case False
    then have yx: "compareJobs y x \<le> 0" using compareJobs_total[of x y] by simp
    have "sorted_wrt (\<lambda>a b. compareJobs a b \<le> 0) (insert_sorted compareJobs x ys)"
      using Cons.IH Cons.prems by simp
    with False yx Cons.prems show ?thesis by (simp add: set_insert_sorted)
  qed
qed

lemma sorted_js_sort: "sorted_wrt (\<lambda>a b. compareJobs a b \<le> 0) (js_sort compareJobs xs)"
  by (induction xs) (simp_all add: sorted_insert_sorted)

lemma sorted_jobs_head_minimal:
  assumes "sorted_jobs mq = job # rest"
  shows "job \<in> snd ` set (queue mq)"
    and "\<forall>k \<in> snd ` set (queue mq). compareJobs job k \<le> 0"
proof -
  have s: "set (job # rest) = snd ` set (queue mq)"
    using set_js_sort[of compareJobs "map snd (queue mq)"] assms by (simp add: sorted_jobs_def)
  then show "job \<in> snd ` set (queue mq)" by auto
  have "sorted_wrt (\<lambda>a b. compareJobs a b \<le> 0) (job # rest)"
    using sorted_js_sort[of "map snd (queue mq)"] assms by (simp add: sorted_jobs_def)
  then have "\<forall>k \<in> set rest. compareJobs job k \<le> 0" by simp
  moreover have "compareJobs job job \<le> 0" by (simp add: compareJobs_def)
  ultimately have "\<forall>k \<in> set (job # rest). compareJobs job k \<le> 0" by simp
  then show "\<forall>k \<in> snd ` set (queue mq). compareJobs job k \<le> 0" by (simp only: s)
qed

text \<open>
  C8. On a non-empty queue \<open>getNextJob\<close> returns a queued job that no queued job
  precedes in the order (priority ascending, then \<open>enqueuedAt\<close> ascending): every queued
  job has a higher priority number, or the same one and an \<open>enqueuedAt\<close> that is not
  earlier. That job leaves the queue and its id enters the processing set.
\<close>

theorem getNextJob_minimal:
  assumes "queue mq \<noteq> []"
  shows "\<exists>job. fst (getNextJob mq) = Some job
     \<and> job \<in> snd ` set (queue mq)
     \<and> (\<forall>k \<in> snd ` set (queue mq).
           priority job < priority k
           \<or> (priority job = priority k \<and> enqueuedAt job \<le> enqueuedAt k))
     \<and> queue (snd (getNextJob mq)) = AList.delete (messageId job) (queue mq)
     \<and> processing (snd (getNextJob mq)) = insert (messageId job) (processing mq)"
proof -
  have "length (sorted_jobs mq) = length (queue mq)"
    by (simp add: sorted_jobs_def length_js_sort)
  with assms have "sorted_jobs mq \<noteq> []" by auto
  then obtain job rest where sj: "sorted_jobs mq = job # rest"
    by (cases "sorted_jobs mq") auto
  have next_job: "getNextJob mq =
      (Some job, mq\<lparr>queue := AList.delete (messageId job) (queue mq),
                     processing := insert (messageId job) (processing mq)\<rparr>)"
    using assms sj by (simp add: getNextJob_def)
  show ?thesis
    using sorted_jobs_head_minimal[OF sj] next_job
    by (auto simp: compareJobs_le)
qed

theorem getNextJob_minimal_witness:
  "queue (snd (enqueue (snd (enqueue (snd (enqueue
      (new_media_queue :: (unit, unit) media_queue)
        1000 ''m1'' \<lparr>msg_type = ''video'', msg_payload = ()\<rparr> ''c1'' 2))
        1001 ''m2'' \<lparr>msg_type = ''image'', msg_payload = ()\<rparr> ''c1'' 1))
        1002 ''m3'' \<lparr>msg_type = ''image'', msg_payload = ()\<rparr> ''c1'' 1)) \<noteq> []
   \<and> map_option messageId (fst (getNextJob (snd (enqueue (snd (enqueue (snd (enqueue
      (new_media_queue :: (unit, unit) media_queue)
        1000 ''m1'' \<lparr>msg_type = ''video'', msg_payload = ()\<rparr> ''c1'' 2))
        1001 ''m2'' \<lparr>msg_type = ''image'', msg_payload = ()\<rparr> ''c1'' 1))
        1002 ''m3'' \<lparr>msg_type = ''image'', msg_payload = ()\<rparr> ''c1'' 1)))) = Some ''m2''"
proof -
  let ?mq = "snd (enqueue (snd (enqueue (snd (enqueue
      (new_media_queue :: (unit, unit) media_queue)
        1000 ''m1'' \<lparr>msg_type = ''video'', msg_payload = ()\<rparr> ''c1'' 2))
        1001 ''m2'' \<lparr>msg_type = ''image'', msg_payload = ()\<rparr> ''c1'' 1))
        1002 ''m3'' \<lparr>msg_type = ''image'', msg_payload = ()\<rparr> ''c1'' 1)"
  have q: "map fst (queue ?mq) = [''m1'', ''m2'', ''m3'']"
    by (simp add: enqueue_def new_media_queue_def queue_has_def Let_def)
  then have ne: "queue ?mq \<noteq> []" by auto
  have v: "map_option messageId (fst (getNextJob ?mq)) = Some ''m2''"
    by (simp add: getNextJob_def sorted_jobs_def compareJobs_def enqueue_def new_media_queue_def
        queue_has_def Let_def)
  from getNextJob_minimal[OF ne] obtain job where "fst (getNextJob ?mq) = Some job" by blast
  with ne v show ?thesis by simp
qed

lemma getMediaStatus_completed:
  "getMediaStatus mq mid = StatusCompleted d \<longleftrightarrow> completed mq mid = Some d"
  by (auto simp: getMediaStatus_def split: option.splits)

lemma getMediaStatus_processing:
  "getMediaStatus mq mid = StatusProcessing \<longleftrightarrow> completed mq mid = None \<and> mid \<in> processing mq"
  by (auto simp: getMediaStatus_def split: option.splits)

lemma getMediaStatus_queued:
  "(\<exists>p t. getMediaStatus mq mid = StatusQueued p t) \<longleftrightarrow>
     completed mq mid = None \<and> mid \<notin> processing mq \<and> queue_has mq mid"
  by (auto simp: getMediaStatus_def queue_has_def split: option.splits)

lemma getMediaStatus_not_found:
  "getMediaStatus mq mid = StatusNotFound \<longleftrightarrow>
     completed mq mid = None \<and> mid \<notin> processing mq \<and> \<not> queue_has mq mid"
  by (auto simp: getMediaStatus_def queue_has_def split: option.splits)

text \<open>
  C10. \<open>getStatus\<close> of the media queue answers \<open>not_found\<close> exactly for the ids that
  are in none of the three collections. Otherwise the first collection holding the id,
  in the order completed, processing, queue, decides the answer: \<open>completed\<close> with the
  stored entry, else \<open>processing\<close>, else \<open>queued\<close> with the job's position and
  \<open>enqueuedAt\<close>. The four cases exclude one another, so an id held by several
  collections still gets one status.
\<close>

theorem getMediaStatus_exactly_one:
  "(getMediaStatus mq mid = StatusNotFound \<longleftrightarrow>
      completed mq mid = None \<and> mid \<notin> processing mq \<and> mid \<notin> fst ` set (queue mq))
   \<and> (getMediaStatus mq mid = StatusCompleted d \<longleftrightarrow> completed mq mid = Some d)
   \<and> (getMediaStatus mq mid = StatusProcessing \<longleftrightarrow>
        completed mq mid = None \<and> mid \<in> processing mq)
   \<and> ((\<exists>p t. getMediaStatus mq mid = StatusQueued p t) \<longleftrightarrow>
        completed mq mid = None \<and> mid \<notin> processing mq \<and> mid \<in> fst ` set (queue mq))
   \<and> (getMediaStatus mq mid = StatusQueued p t \<longleftrightarrow>
        completed mq mid = None \<and> mid \<notin> processing mq
        \<and> p = getQueuePosition mq mid
        \<and> map_option enqueuedAt (map_of (queue mq) mid) = Some t)
   \<and> getMediaStatus mq mid \<noteq> StatusEnqueued"
proof -
  have q: "getMediaStatus mq mid = StatusQueued p t \<longleftrightarrow>
        completed mq mid = None \<and> mid \<notin> processing mq
        \<and> p = getQueuePosition mq mid
        \<and> map_option enqueuedAt (map_of (queue mq) mid) = Some t"
    by (auto simp: getMediaStatus_def split: option.splits)
  have e: "getMediaStatus mq mid \<noteq> StatusEnqueued"
    by (simp add: getMediaStatus_def split: option.splits)
  show ?thesis
    using getMediaStatus_not_found[of mq mid] getMediaStatus_completed[of mq mid d]
      getMediaStatus_processing[of mq mid] getMediaStatus_queued[of mq mid] q e
    by (simp add: queue_has_iff)
qed


section \<open>Properties of the chat cache\<close>

lemma mirror_to_group_fields [simp]:
  "chatCache (mirror_to_group cc clientNumber chatId chat) = chatCache cc"
  "unreadChats (mirror_to_group cc clientNumber chatId chat) = unreadChats cc"
  by (simp_all add: mirror_to_group_def split: option.splits)

lemma markAsUnread_absent:
  "chatCache cc clientNumber = None \<or> unreadChats cc clientNumber = None \<Longrightarrow>
   markAsUnread cc now clientNumber chatId incrementBy = cc"
  by (auto simp: markAsUnread_def split: option.splits)

lemma markAsRead_absent:
  "chatCache cc clientNumber = None \<or> unreadChats cc clientNumber = None \<Longrightarrow>
   markAsRead cc now clientNumber chatId = cc"
  by (auto simp: markAsRead_def split: option.splits)

lemma markAsUnread_present:
  assumes "chatCache cc clientNumber = Some clientCache" "unreadChats cc clientNumber = Some unreadSet"
  shows "unreadChats (markAsUnread cc now clientNumber chatId incrementBy) clientNumber
           = Some (insert chatId unreadSet)"
    and "chatCache (markAsUnread cc now clientNumber chatId incrementBy) clientNumber
           = Some (case clientCache chatId of
                     None \<Rightarrow> clientCache
                   | Some chat \<Rightarrow> clientCache(chatId \<mapsto>
                       chat\<lparr>unreadCount := Some (count_or_zero (unreadCount chat) + incrementBy),
                            chat_timestamp := now\<rparr>))"
  using assms by (simp_all add: markAsUnread_def Let_def split: option.splits)

lemma markAsRead_present:
  assumes "chatCache cc clientNumber = Some clientCache" "unreadChats cc clientNumber = Some unreadSet"
  shows "unreadChats (markAsRead cc now clientNumber chatId) clientNumber
           = Some (unreadSet - {chatId})"
    and "chatCache (markAsRead cc now clientNumber chatId) clientNumber
           = Some (case clientCache chatId of
                     None \<Rightarrow> clientCache
                   | Some chat \<Rightarrow> clientCache(chatId \<mapsto>
                       chat\<lparr>unreadCount := Some 0, chat_timestamp := now\<rparr>))"
  using assms by (simp_all add: markAsRead_def Let_def split: option.splits)

text \<open>Every method modelled keeps the chat map and the unread set of each client paired.\<close>

lemma cache_paired_new: "cache_paired new_chat_cache c"
  by (simp add: cache_paired_def new_chat_cache_def)

lemma cache_paired_initializeCache:
  "cache_paired cc c \<Longrightarrow> cache_paired (initializeCache cc now clientNumber chats) c"
  by (simp add: cache_paired_def initializeCache_def Let_def split: prod.splits)

lemma cache_paired_clearCache:
  "cache_paired cc c \<Longrightarrow> cache_paired (clearCache cc clientNumber) c"
  by (simp add: cache_paired_def clearCache_def)

lemma cache_paired_markAsUnread:
  "cache_paired cc c \<Longrightarrow> cache_paired (markAsUnread cc now clientNumber chatId incrementBy) c"
  by (auto simp: cache_paired_def markAsUnread_def Let_def split: option.splits)

lemma cache_paired_markAsRead:
  "cache_paired cc c \<Longrightarrow> cache_paired (markAsRead cc now clientNumber chatId) c"
  by (auto simp: cache_paired_def markAsRead_def Let_def split: option.splits)

text \<open>
  C6. For a client whose chat map and unread set exist together or not at all (as they
  do in a fresh cache and after each of the methods, see the \<open>cache_paired\<close> lemmas),
  \<open>markAsUnread\<close> puts the chat id into the unread index (when the client has a cache)
  and adds \<open>incrementBy\<close> to the \<open>unreadCount\<close> of the cached chat; \<open>markAsRead\<close> on the
  same chat id after it leaves the id out of the unread index, and the cached chat, when
  there is one, is the one from before with \<open>unreadCount\<close> 0 and the timestamp of the
  \<open>markAsRead\<close> call; when the chat is not cached it stays absent.
\<close>

theorem markAsUnread_markAsRead_roundtrip:
  assumes "cache_paired cc clientNumber"
  shows "\<not> in_unread_index
             (markAsRead (markAsUnread cc t1 clientNumber chatId incrementBy) t2 clientNumber chatId)
             clientNumber chatId
     \<and> cached_chat
         (markAsRead (markAsUnread cc t1 clientNumber chatId incrementBy) t2 clientNumber chatId)
         clientNumber chatId
       = map_option (\<lambda>chat. chat\<lparr>unreadCount := Some 0, chat_timestamp := t2\<rparr>)
           (cached_chat cc clientNumber chatId)
     \<and> (\<forall>chat. cached_chat
           (markAsRead (markAsUnread cc t1 clientNumber chatId incrementBy) t2 clientNumber chatId)
           clientNumber chatId = Some chat \<longrightarrow> unreadCount chat = Some 0)
     \<and> (chatCache cc clientNumber \<noteq> None \<longrightarrow>
          in_unread_index (markAsUnread cc t1 clientNumber chatId incrementBy) clientNumber chatId)
     \<and> cached_chat (markAsUnread cc t1 clientNumber chatId incrementBy) clientNumber chatId
       = map_option
           (\<lambda>chat. chat\<lparr>unreadCount := Some (count_or_zero (unreadCount chat) + incrementBy),
                        chat_timestamp := t1\<rparr>)
           (cached_chat cc clientNumber chatId)"
proof (cases "chatCache cc clientNumber")
  case None
  then have u: "unreadChats cc clientNumber = None"
    using assms by (simp add: cache_paired_def)
  have m: "markAsUnread cc t1 clientNumber chatId incrementBy = cc"
    using None by (simp add: markAsUnread_absent)
  have "markAsRead (markAsUnread cc t1 clientNumber chatId incrementBy) t2 clientNumber chatId = cc"
    using None by (simp add: markAsUnread_absent markAsRead_absent)
  then show ?thesis using None u m by (simp add: in_unread_index_def cached_chat_def)
next
  case (Some clientCache)
  then obtain unreadSet where u: "unreadChats cc clientNumber = Some unreadSet"
    using assms by (auto simp: cache_paired_def)
  let ?cc1 = "markAsUnread cc t1 clientNumber chatId incrementBy"
  note m1 = markAsUnread_present[OF Some u, of t1 chatId incrementBy]
  note m2 = markAsRead_present[OF m1(2) m1(1), of t2 chatId]
  have idx: "\<not> in_unread_index (markAsRead ?cc1 t2 clientNumber chatId) clientNumber chatId"
    by (simp add: in_unread_index_def m2(1))
  have chat: "cached_chat (markAsRead ?cc1 t2 clientNumber chatId) clientNumber chatId
       = map_option (\<lambda>chat. chat\<lparr>unreadCount := Some 0, chat_timestamp := t2\<rparr>)
           (cached_chat cc clientNumber chatId)"
    by (simp add: cached_chat_def m2(2) Some split: option.splits)
  have idx1: "in_unread_index ?cc1 clientNumber chatId"
    by (simp add: in_unread_index_def m1(1))
  have chat1: "cached_chat ?cc1 clientNumber chatId
       = map_option
           (\<lambda>chat. chat\<lparr>unreadCount := Some (count_or_zero (unreadCount chat) + incrementBy),
                        chat_timestamp := t1\<rparr>)
           (cached_chat cc clientNumber chatId)"
    by (simp add: cached_chat_def m1(2) Some split: option.splits)
  from idx chat idx1 chat1 show ?thesis by auto
qed

theorem markAsUnread_markAsRead_roundtrip_witness:
  "cache_paired
     (initializeCache new_chat_cache 1000 ''c1''
        [\<lparr>wa_id_serialized = ''a@c.us'', wa_id_user = ''a'', wa_name = ''Ana'', wa_isGroup = False,
          wa_unreadCount = Some 0, wa_timestamp = 10\<rparr>,
         \<lparr>wa_id_serialized = ''g@g.us'', wa_id_user = ''g'', wa_name = ''Team'', wa_isGroup = True,
          wa_unreadCount = Some 5, wa_timestamp = 20\<rparr>]) ''c1''
   \<and> \<not> in_unread_index
       (initializeCache new_chat_cache 1000 ''c1''
          [\<lparr>wa_id_serialized = ''a@c.us'', wa_id_user = ''a'', wa_name = ''Ana'', wa_isGroup = False,
            wa_unreadCount = Some 0, wa_timestamp = 10\<rparr>,
           \<lparr>wa_id_serialized = ''g@g.us'', wa_id_user = ''g'', wa_name = ''Team'', wa_isGroup = True,
            wa_unreadCount = Some 5, wa_timestamp = 20\<rparr>]) ''c1'' ''a@c.us''
   \<and> map_option unreadCount (cached_chat
       (initializeCache new_chat_cache 1000 ''c1''
          [\<lparr>wa_id_serialized = ''a@c.us'', wa_id_user = ''a'', wa_name = ''Ana'', wa_isGroup = False,
            wa_unreadCount = Some 0, wa_timestamp = 10\<rparr>,
           \<lparr>wa_id_serialized = ''g@g.us'', wa_id_user = ''g'', wa_name = ''Team'', wa_isGroup = True,
            wa_unreadCount = Some 5, wa_timestamp = 20\<rparr>]) ''c1'' ''a@c.us'') = Some (Some 0)
   \<and> in_unread_index
       (markAsUnread
         (initializeCache new_chat_cache 1000 ''c1''
            [\<lparr>wa_id_serialized = ''a@c.us'', wa_id_user = ''a'', wa_name = ''Ana'', wa_isGroup = False,
              wa_unreadCount = Some 0, wa_timestamp = 10\<rparr>,
             \<lparr>wa_id_serialized = ''g@g.us'', wa_id_user = ''g'', wa_name = ''Team'', wa_isGroup = True,
              wa_unreadCount = Some 5, wa_timestamp = 20\<rparr>])
         2000 ''c1'' ''a@c.us'' 1) ''c1'' ''a@c.us''
   \<and> map_option unreadCount (cached_chat
       (markAsUnread
         (initializeCache new_chat_cache 1000 ''c1''
            [\<lparr>wa_id_serialized = ''a@c.us'', wa_id_user = ''a'', wa_name = ''Ana'', wa_isGroup = False,
              wa_unreadCount = Some 0, wa_timestamp = 10\<rparr>,
             \<lparr>wa_id_serialized = ''g@g.us'', wa_id_user = ''g'', wa_name = ''Team'', wa_isGroup = True,
              wa_unreadCount = Some 5, wa_timestamp = 20\<rparr>])
         2000 ''c1'' ''a@c.us'' 1) ''c1'' ''a@c.us'') = Some (Some 1)
   \<and> \<not> in_unread_index
       (markAsRead (markAsUnread
         (initializeCache new_chat_cache 1000 ''c1''
            [\<lparr>wa_id_serialized = ''a@c.us'', wa_id_user = ''a'', wa_name = ''Ana'', wa_isGroup = False,
              wa_unreadCount = Some 0, wa_timestamp = 10\<rparr>,
             \<lparr>wa_id_serialized = ''g@g.us'', wa_id_user = ''g'', wa_name = ''Team'', wa_isGroup = True,
              wa_unreadCount = Some 5, wa_timestamp = 20\<rparr>])
         2000 ''c1'' ''a@c.us'' 1) 3000 ''c1'' ''a@c.us'') ''c1'' ''a@c.us''
   \<and> map_option unreadCount (cached_chat
       (markAsRead (markAsUnread
         (initializeCache new_chat_cache 1000 ''c1''
            [\<lparr>wa_id_serialized = ''a@c.us'', wa_id_user = ''a'', wa_name = ''Ana'', wa_isGroup = False,
              wa_unreadCount = Some 0, wa_timestamp = 10\<rparr>,
             \<lparr>wa_id_serialized = ''g@g.us'', wa_id_user = ''g'', wa_name = ''Team'', wa_isGroup = True,
              wa_unreadCount = Some 5, wa_timestamp = 20\<rparr>])
         2000 ''c1'' ''a@c.us'' 1) 3000 ''c1'' ''a@c.us'') ''c1'' ''a@c.us'') = Some (Some 0)"
proof -
  let ?cc = "initializeCache new_chat_cache 1000 ''c1''
        [\<lparr>wa_id_serialized = ''a@c.us'', wa_id_user = ''a'', wa_name = ''Ana'', wa_isGroup = False,
          wa_unreadCount = Some 0, wa_timestamp = 10\<rparr>,
         \<lparr>wa_id_serialized = ''g@g.us'', wa_id_user = ''g'', wa_name = ''Team'', wa_isGroup = True,
          wa_unreadCount = Some 5, wa_timestamp = 20\<rparr>]"
  have p: "cache_paired ?cc ''c1''"
    by (simp add: cache_paired_initializeCache cache_paired_new)
  have e: "chatCache ?cc ''c1'' \<noteq> None"
    by (simp add: initializeCache_def new_chat_cache_def Let_def split: prod.splits)
  have n: "\<not> in_unread_index ?cc ''c1'' ''a@c.us''"
    by (simp add: in_unread_index_def initializeCache_def new_chat_cache_def
        add_snapshot_chat_def count_or_zero_def Let_def)
  have c: "map_option unreadCount (cached_chat ?cc ''c1'' ''a@c.us'') = Some (Some 0)"
    by (simp add: cached_chat_def initializeCache_def new_chat_cache_def add_snapshot_chat_def
        count_or_zero_def Let_def)
  from c obtain chat where ch: "cached_chat ?cc ''c1'' ''a@c.us'' = Some chat"
    and cnt: "unreadCount chat = Some 0" by auto
  note t = markAsUnread_markAsRead_roundtrip[OF p, of 2000 "''a@c.us''" 1 3000]
  from t have r1: "\<not> in_unread_index
      (markAsRead (markAsUnread ?cc 2000 ''c1'' ''a@c.us'' 1) 3000 ''c1'' ''a@c.us'')
      ''c1'' ''a@c.us''"
    by (elim conjE) assumption
  from t have "cached_chat
      (markAsRead (markAsUnread ?cc 2000 ''c1'' ''a@c.us'' 1) 3000 ''c1'' ''a@c.us'')
      ''c1'' ''a@c.us''
      = map_option (\<lambda>chat. chat\<lparr>unreadCount := Some 0, chat_timestamp := 3000\<rparr>)
          (cached_chat ?cc ''c1'' ''a@c.us'')"
    by (elim conjE) assumption
  then have r2: "map_option unreadCount (cached_chat
      (markAsRead (markAsUnread ?cc 2000 ''c1'' ''a@c.us'' 1) 3000 ''c1'' ''a@c.us'')
      ''c1'' ''a@c.us'') = Some (Some 0)"
    unfolding ch by simp
  from t have "chatCache ?cc ''c1'' \<noteq> None \<longrightarrow>
      in_unread_index (markAsUnread ?cc 2000 ''c1'' ''a@c.us'' 1) ''c1'' ''a@c.us''"
    by (elim conjE) assumption
  with e have r3: "in_unread_index (markAsUnread ?cc 2000 ''c1'' ''a@c.us'' 1) ''c1'' ''a@c.us''"
    by (rule rev_mp)
  from t have "cached_chat (markAsUnread ?cc 2000 ''c1'' ''a@c.us'' 1) ''c1'' ''a@c.us''
      = map_option
          (\<lambda>chat. chat\<lparr>unreadCount := Some (count_or_zero (unreadCount chat) + 1),
                       chat_timestamp := 2000\<rparr>)
          (cached_chat ?cc ''c1'' ''a@c.us'')"
    by (elim conjE) assumption
  then have r4: "map_option unreadCount
      (cached_chat (markAsUnread ?cc 2000 ''c1'' ''a@c.us'' 1) ''c1'' ''a@c.us'')
      = Some (Some 1)"
    unfolding ch by (simp add: cnt count_or_zero_def)
  from p n c r3 r4 r1 r2 show ?thesis by (intro conjI)
qed


section \<open>Properties of the watchdog\<close>

lemma default_thresholds_fields:
  "maxQrAge default_thresholds = 180000"
  "maxInitializationTime default_thresholds = 300000"
  "maxStateAge default_thresholds = 900000"
  by (simp_all add: default_thresholds_def thresholds_of_def or_default_def)

lemma checkStateValid_absent: "\<not> checkStateValid th sm now num None"
  by (simp add: checkStateValid_def)

lemma checkStateValid_current:
  "getState sm num = Some e \<Longrightarrow>
   checkStateValid th sm now num (Some e) \<longleftrightarrow>
     \<not> (state e = WAITING_QR \<and> now - timestamp e > maxQrAge th
        \<or> state e = INITIALIZING \<and> now - timestamp e > maxInitializationTime th
        \<or> state e \<in> {AUTHENTICATING, RECONNECTING, DISCONNECTED}
            \<and> now - timestamp e > maxStateAge th)"
  by (auto simp: checkStateValid_def getStateAge_def age_exceeds_def Let_def)

lemma fullRestart_result:
  "fullRestart w now r num =
     (True,
      w\<lparr>w_calls := (case w_clients w num of None \<Rightarrow> w_calls w
                      | Some c \<Rightarrow> w_calls w @ [CallCleanupClient num]),
         w_clients := (w_clients w)(num := None),
         w_reconnect := snd (scheduleReconnection (w_reconnect w) now r num)\<rparr>)"
  by (simp add: fullRestart_def Let_def split: option.splits prod.splits)

lemma refreshClient_ok:
  "w_clients w num = Some c \<Longrightarrow> \<not> initialize_throws out \<Longrightarrow>
   refreshClient w now r out num =
     (True,
      w\<lparr>w_calls := w_calls w @ [CallInitialize num],
         w_states := snd (setState (w_states w) num INITIALIZING (Reason ''Watchdog refresh'') now)\<rparr>)"
  by (simp add: refreshClient_def Let_def)

lemma refreshClient_throws:
  "w_clients w num = Some c \<Longrightarrow> initialize_throws out \<Longrightarrow>
   refreshClient w now r out num =
     (True,
      w\<lparr>w_calls := w_calls w @ [CallInitialize num, CallCleanupClient num],
         w_clients := (w_clients w)(num := None),
         w_reconnect := snd (scheduleReconnection (w_reconnect w) now r num)\<rparr>)"
  by (simp add: refreshClient_def fullRestart_result Let_def)

lemma attemptRecovery_state_only:
  "processAlive fc \<Longrightarrow> browserResponsive fc \<Longrightarrow> \<not> stateValid fc \<Longrightarrow>
   attemptRecovery w now r out num fc =
     (Some (fst (refreshClient w now r out num)), snd (refreshClient w now r out num))"
  by (simp add: attemptRecovery_def split: prod.splits)

text \<open>
  C7, as the code has it. The state-valid check is false exactly when the client has no
  state entry, or its current state is \<open>WAITING_QR\<close> for more than \<open>maxQrAge\<close>,
  \<open>INITIALIZING\<close> for more than \<open>maxInitializationTime\<close>, or one of
  \<open>AUTHENTICATING\<close>, \<open>RECONNECTING\<close>, \<open>DISCONNECTED\<close> for more than \<open>maxStateAge\<close>
  (180000, 300000 and 900000 ms by default). When the process-alive and responsive checks
  pass and the state-valid check fails, recovery of a known client calls
  \<open>client.initialize()\<close> first. If that returns, the state becomes \<open>INITIALIZING\<close> and
  nothing else is called; if it throws, the full restart follows: the client is cleaned
  up and forgotten, and a reconnection is scheduled. Both ways the result is \<open>true\<close>.
\<close>

theorem checkStateValid_and_refresh:
  "(\<not> checkStateValid th sm now num (getState sm num) \<longleftrightarrow>
      getState sm num = None
      \<or> (\<exists>e. getState sm num = Some e
            \<and> (state e = WAITING_QR \<and> now - timestamp e > maxQrAge th
               \<or> state e = INITIALIZING \<and> now - timestamp e > maxInitializationTime th
               \<or> state e \<in> {AUTHENTICATING, RECONNECTING, DISCONNECTED}
                   \<and> now - timestamp e > maxStateAge th)))
   \<and> maxQrAge default_thresholds = 180000
   \<and> maxInitializationTime default_thresholds = 300000
   \<and> maxStateAge default_thresholds = 900000
   \<and> (processAlive fc \<and> browserResponsive fc \<and> \<not> stateValid fc \<and> w_clients w num = Some c \<longrightarrow>
        attemptRecovery w now r out num fc =
          (if initialize_throws out
           then (Some True,
                 w\<lparr>w_calls := w_calls w @ [CallInitialize num, CallCleanupClient num],
                    w_clients := (w_clients w)(num := None),
                    w_reconnect := snd (scheduleReconnection (w_reconnect w) now r num)\<rparr>)
           else (Some True,
                 w\<lparr>w_calls := w_calls w @ [CallInitialize num],
                    w_states := snd (setState (w_states w) num INITIALIZING
                                       (Reason ''Watchdog refresh'') now)\<rparr>)))"
proof -
  have valid: "\<not> checkStateValid th sm now num (getState sm num) \<longleftrightarrow>
      getState sm num = None
      \<or> (\<exists>e. getState sm num = Some e
            \<and> (state e = WAITING_QR \<and> now - timestamp e > maxQrAge th
               \<or> state e = INITIALIZING \<and> now - timestamp e > maxInitializationTime th
               \<or> state e \<in> {AUTHENTICATING, RECONNECTING, DISCONNECTED}
                   \<and> now - timestamp e > maxStateAge th))"
  proof (cases "getState sm num")
    case None
    then show ?thesis by (simp add: checkStateValid_absent)
  next
    case (Some e)
    then show ?thesis using checkStateValid_current[OF Some, of th now] by simp
  qed
  have recover: "attemptRecovery w now r out num fc =
          (if initialize_throws out
           then (Some True,
                 w\<lparr>w_calls := w_calls w @ [CallInitialize num, CallCleanupClient num],
                    w_clients := (w_clients w)(num := None),
                    w_reconnect := snd (scheduleReconnection (w_reconnect w) now r num)\<rparr>)
           else (Some True,
                 w\<lparr>w_calls := w_calls w @ [CallInitialize num],
                    w_states := snd (setState (w_states w) num INITIALIZING
                                       (Reason ''Watchdog refresh'') now)\<rparr>))"
    if "processAlive fc" "browserResponsive fc" "\<not> stateValid fc" "w_clients w num = Some c"
    using that
    by (simp add: attemptRecovery_state_only refreshClient_ok[of w num c]
        refreshClient_throws[of w num c])
  show ?thesis
    using valid recover default_thresholds_fields by blast
qed

theorem checkStateValid_and_refresh_witness:
  "\<not> checkStateValid default_thresholds
       (snd (setState new_state_manager ''c1'' WAITING_QR (Reason ''qr'') 0)) 200000 ''c1''
       (getState (snd (setState new_state_manager ''c1'' WAITING_QR (Reason ''qr'') 0)) ''c1'')
   \<and> fst (attemptRecovery
        \<lparr>w_states = snd (setState new_state_manager ''c1'' WAITING_QR (Reason ''qr'') 0),
         w_reconnect = new_reconnection_manager (config empty_env),
         w_clients = [''c1'' \<mapsto> \<lparr>has_pupPage = True\<rparr>], w_calls = []\<rparr>
        200000 (1 / 2) \<lparr>initialize_throws = True, reload_throws = False\<rparr> ''c1''
        \<lparr>processAlive = True, browserResponsive = True, stateValid = False,
         websocketActive = True\<rparr>) = Some True
   \<and> w_calls (snd (attemptRecovery
        \<lparr>w_states = snd (setState new_state_manager ''c1'' WAITING_QR (Reason ''qr'') 0),
         w_reconnect = new_reconnection_manager (config empty_env),
         w_clients = [''c1'' \<mapsto> \<lparr>has_pupPage = True\<rparr>], w_calls = []\<rparr>
        200000 (1 / 2) \<lparr>initialize_throws = True, reload_throws = False\<rparr> ''c1''
        \<lparr>processAlive = True, browserResponsive = True, stateValid = False,
         websocketActive = True\<rparr>)) = [CallInitialize ''c1'', CallCleanupClient ''c1'']
   \<and> w_calls (snd (attemptRecovery
        \<lparr>w_states = snd (setState new_state_manager ''c1'' WAITING_QR (Reason ''qr'') 0),
         w_reconnect = new_reconnection_manager (config empty_env),
         w_clients = [''c1'' \<mapsto> \<lparr>has_pupPage = True\<rparr>], w_calls = []\<rparr>
        200000 (1 / 2) \<lparr>initialize_throws = False, reload_throws = False\<rparr> ''c1''
        \<lparr>processAlive = True, browserResponsive = True, stateValid = False,
         websocketActive = True\<rparr>)) = [CallInitialize ''c1'']"
proof -
  let ?sm = "snd (setState new_state_manager ''c1'' WAITING_QR (Reason ''qr'') 0)"
  let ?w = "\<lparr>w_states = ?sm, w_reconnect = new_reconnection_manager (config empty_env),
         w_clients = [''c1'' \<mapsto> \<lparr>has_pupPage = True\<rparr>], w_calls = []\<rparr>"
  let ?fc = "\<lparr>processAlive = True, browserResponsive = True, stateValid = False,
         websocketActive = True\<rparr>"
  have g: "getState ?sm ''c1'' =
      Some \<lparr>state = WAITING_QR, timestamp = 0, metadata = Reason ''qr'', previousState = None\<rparr>"
    by (simp add: getState_setState new_state_manager_def)
  have stuck: "\<not> checkStateValid default_thresholds ?sm 200000 ''c1'' (getState ?sm ''c1'')"
    unfolding g using checkStateValid_current[OF g, of default_thresholds 200000]
    by (simp add: default_thresholds_fields)
  have h: "processAlive ?fc \<and> browserResponsive ?fc \<and> \<not> stateValid ?fc
      \<and> w_clients ?w ''c1'' = Some \<lparr>has_pupPage = True\<rparr>"
    by simp
  show ?thesis
    using checkStateValid_and_refresh[where th = default_thresholds and sm = ?sm
        and now = 200000 and num = "''c1''" and fc = ?fc and w = ?w
        and c = "\<lparr>has_pupPage = True\<rparr>" and r = "1 / 2"
        and out = "\<lparr>initialize_throws = True, reload_throws = False\<rparr>"]
      checkStateValid_and_refresh[where th = default_thresholds and sm = ?sm
        and now = 200000 and num = "''c1''" and fc = ?fc and w = ?w
        and c = "\<lparr>has_pupPage = True\<rparr>" and r = "1 / 2"
        and out = "\<lparr>initialize_throws = False, reload_throws = False\<rparr>"]
      stuck h
    by simp
qed

text \<open>
  The claim's "exactly when" fails for a client without a state entry: the check is
  false there although the client is not in any state, let alone stuck in one.
\<close>

theorem checkStateValid_false_without_state:
  "getState (new_state_manager :: unit state_manager) ''c1'' = None
   \<and> \<not> checkStateValid default_thresholds (new_state_manager :: unit state_manager) 0 ''c1''
         (getState (new_state_manager :: unit state_manager) ''c1'')"
  by (simp add: getState_def new_state_manager_def checkStateValid_def)

end
